theory Spec2Isabelle
  imports Complex_Main "HOL-Library.AList"
begin

section \<open>Python values the daemon relies on\<close>

text \<open>
  The daemon is Python. Exceptions are values here: a computation that may raise returns
  \<open>py_exn + 'a\<close> with \<open>Inl\<close> for the exception. \<open>SystemExit\<close> is the one exception of
  the sources that is not a subclass of \<open>Exception\<close>, so no \<open>except Exception\<close> catches it.
  Strings are lists of code points below 256; configuration values (the YAML leaves and the
  payloads of actions) are \<open>pyval\<close>.
\<close>

datatype py_exn = ValueError | KeyError | AttributeError | SystemExit int

datatype pyval = Str string | Num int | Payload "(string \<times> string) list"

type_synonym pydict = "string \<rightharpoonup> pyval"

text \<open>\<open>d.get(key, default)\<close>.\<close>

definition dict_get :: "pydict \<Rightarrow> string \<Rightarrow> pyval \<Rightarrow> pyval" where
  "dict_get d k dflt = (case d k of None \<Rightarrow> dflt | Some v \<Rightarrow> v)"

subsection \<open>\<open>str.split()\<close> and \<open>int(str)\<close>\<close>

definition py_isspace :: "char \<Rightarrow> bool" where
  "py_isspace c =
     (let n = (of_char c :: nat)
      in (9 \<le> n \<and> n \<le> 13) \<or> (28 \<le> n \<and> n \<le> 32) \<or> n = 133 \<or> n = 160)"

text \<open>
  \<open>s.split()\<close> with no separator: the maximal runs of non-whitespace characters, left to
  right. \<open>cur\<close> is the run being read, reversed.
\<close>

fun split_go :: "string \<Rightarrow> string \<Rightarrow> string list" where
  "split_go cur [] = (if cur = [] then [] else [rev cur])"
| "split_go cur (c # cs) =
     (if py_isspace c
      then (if cur = [] then split_go [] cs else rev cur # split_go [] cs)
      else split_go (c # cur) cs)"

definition py_split :: "string \<Rightarrow> string list" where
  "py_split s = split_go [] s"

text \<open>
  The whitespace \<open>int\<close> drops around a literal: as \<open>split\<close>, but not the separators
  \<open>0x1C\<close> to \<open>0x1F\<close>.
\<close>

definition int_isspace :: "char \<Rightarrow> bool" where
  "int_isspace c =
     (let n = (of_char c :: nat)
      in (9 \<le> n \<and> n \<le> 13) \<or> n = 32 \<or> n = 133 \<or> n = 160)"

definition py_strip :: "string \<Rightarrow> string" where
  "py_strip s = rev (dropWhile int_isspace (rev (dropWhile int_isspace s)))"

definition is_digit :: "char \<Rightarrow> bool" where
  "is_digit c = (48 \<le> (of_char c :: nat) \<and> (of_char c :: nat) \<le> 57)"

definition digit_val :: "char \<Rightarrow> nat" where
  "digit_val c = (of_char c :: nat) - 48"

text \<open>
  The digits of a decimal literal after its first digit: digits, or one underscore
  followed by a digit.
\<close>

fun parse_digits :: "nat \<Rightarrow> string \<Rightarrow> nat option" where
  "parse_digits acc [] = Some acc"
| "parse_digits acc [c] = (if is_digit c then Some (10 * acc + digit_val c) else None)"
| "parse_digits acc (c # d # ds) =
     (if is_digit c then parse_digits (10 * acc + digit_val c) (d # ds)
      else if c = CHR ''_'' \<and> is_digit d then parse_digits (10 * acc + digit_val d) ds
      else None)"

text \<open>
  The interpreter refuses a literal of more than \<open>sys.get_int_max_str_digits()\<close> digits,
  leading zeros counted and underscores not, with a \<open>ValueError\<close>; the daemon leaves the
  limit at its default.
\<close>

definition int_max_str_digits :: nat where
  "int_max_str_digits = 4300"

definition parse_unsigned :: "string \<Rightarrow> nat option" where
  "parse_unsigned s =
     (case s of
        [] \<Rightarrow> None
      | d # ds \<Rightarrow>
          if length (filter is_digit s) > int_max_str_digits then None
          else if is_digit d then parse_digits (digit_val d) ds
          else None)"

text \<open>
  \<open>int(s)\<close> in base 10: surrounding whitespace is dropped, one sign is allowed, then a
  decimal literal. \<open>None\<close> stands for the \<open>ValueError\<close> it raises otherwise.
\<close>

definition py_int :: "string \<Rightarrow> int option" where
  "py_int s =
     (case py_strip s of
        [] \<Rightarrow> None
      | c # cs \<Rightarrow>
          if c = CHR ''-'' then map_option (\<lambda>n. - int n) (parse_unsigned cs)
          else if c = CHR ''+'' then map_option int (parse_unsigned cs)
          else map_option int (parse_unsigned (c # cs)))"

subsection \<open>Dictionaries in insertion order, \<open>min\<close> with a key, slices\<close>

text \<open>
  \<open>loaded_models\<close> and \<open>model_usage\<close> are dictionaries whose iteration order matters
  (\<open>min\<close> returns the first minimal item), so they are association lists in insertion
  order: \<open>AList.update\<close> overwrites in place or appends, \<open>AList.delete\<close> removes the key.
\<close>

definition dict_keys :: "('k \<times> 'v) list \<Rightarrow> 'k list" where
  "dict_keys d = map fst d"

text \<open>\<open>min(x :: xs, key=key)\<close>: the first item whose key is minimal.\<close>

fun py_min_by :: "('a \<Rightarrow> 'b::linorder) \<Rightarrow> 'a \<Rightarrow> 'a list \<Rightarrow> 'a" where
  "py_min_by key best [] = best"
| "py_min_by key best (y # ys) =
     (if key y < key best then py_min_by key y ys else py_min_by key best ys)"

text \<open>\<open>xs[start:]\<close>: a negative start counts from the end, and both ends are clipped.\<close>

definition py_slice_from :: "int \<Rightarrow> 'a list \<Rightarrow> 'a list" where
  "py_slice_from start xs =
     (let n = int (length xs);
          i = (if start < 0 then max 0 (start + n) else min start n)
      in drop (nat i) xs)"


section \<open>The agent loop (\<open>agent_loop.py\<close>)\<close>

text \<open>
  \<open>daemon_state\<close> is the dictionary \<open>TransformersDaemon.state\<close>, which the daemon shares
  with its agent loop; its keys are fixed by the constructor, so it is a record. Python's
  floats are idealised as real numbers (no rounding).
\<close>

record daemon_state =
  status :: string
  uptime :: real
  cycles_completed :: int
  last_thought :: "string option"
  consciousness_level :: real

record thought_entry =
  cycle :: int
  timestamp :: string
  thought :: string
  thought_type :: string

record agent_loop =
  running :: bool
  consciousness_mode :: bool
  thoughts :: "thought_entry list"
  pending_actions :: "pydict list"

text \<open>
  \<open>_consciousness_cycle\<close>. The thought comes from \<open>_generate_thought\<close>, which draws it at
  random and returns \<open>None\<close> when it fails: it is an input here, as is the text of the
  clock. \<open>if thought:\<close> is false for \<open>None\<close> and for the empty string.
\<close>

definition consciousness_cycle ::
  "int \<Rightarrow> string option \<Rightarrow> string \<Rightarrow> agent_loop \<times> daemon_state \<Rightarrow> agent_loop \<times> daemon_state" where
  "consciousness_cycle cyc generated now_iso w =
     (let (al, ds) = w in
      if \<not> consciousness_mode al then (al, ds)
      else (case generated of
              None \<Rightarrow> (al, ds)
            | Some t \<Rightarrow>
                if t = [] then (al, ds)
                else
                  (let appended = thoughts al @
                         [\<lparr>cycle = cyc, timestamp = now_iso, thought = t,
                           thought_type = ''autonomous''\<rparr>];
                       kept = (if length appended > 100 then py_slice_from (- 100) appended
                               else appended)
                   in (al\<lparr>thoughts := kept\<rparr>, ds\<lparr>last_thought := Some t\<rparr>))))"

text \<open>\<open>_update_consciousness\<close>: the metric stored under \<open>consciousness_level\<close>.\<close>

definition update_consciousness :: "agent_loop \<Rightarrow> daemon_state \<Rightarrow> daemon_state" where
  "update_consciousness al ds =
     (let thoughts_count = length (thoughts al);
          consciousness =
            min 1 ((uptime ds / 86400) * (3 / 10)
                   + (real_of_int (cycles_completed ds) / 10000) * (3 / 10)
                   + (real thoughts_count / 100) * (4 / 10))
      in ds\<lparr>consciousness_level := consciousness\<rparr>)"

text \<open>\<open>add_task\<close> appends to the live queue; \<open>get_recent_thoughts\<close> is \<open>thoughts[-count:]\<close>.\<close>

definition add_task :: "agent_loop \<Rightarrow> pydict \<Rightarrow> agent_loop" where
  "add_task al task = al\<lparr>pending_actions := pending_actions al @ [task]\<rparr>"

definition get_recent_thoughts :: "agent_loop \<Rightarrow> int \<Rightarrow> thought_entry list" where
  "get_recent_thoughts al count = py_slice_from (- count) (thoughts al)"

text \<open>
  What one iteration of \<open>_process_actions\<close> does with the action it popped: it only logs.
  A missing \<open>data\<close> or \<open>message\<close> key raises \<open>KeyError\<close> inside the \<open>try\<close>, which is logged
  too; the loop goes on in every case.
\<close>

datatype log_line =
    Analysis pyval
  | Autonomous_message pyval
  | Documentation_check_completed
  | Unknown_action_type "pyval option"
  | Error_processing_action py_exn

definition process_action :: "pydict \<Rightarrow> log_line" where
  "process_action action =
     (let action_type = action ''type'' in
      if action_type = Some (Str ''log_analysis'') then
        (case action ''data'' of
           None \<Rightarrow> Error_processing_action KeyError
         | Some d \<Rightarrow> Analysis d)
      else if action_type = Some (Str ''conversation'') then
        (case action ''message'' of
           None \<Rightarrow> Error_processing_action KeyError
         | Some m \<Rightarrow> Autonomous_message m)
      else if action_type = Some (Str ''documentation_check'') then
        Documentation_check_completed
      else Unknown_action_type action_type)"

text \<open>
  \<open>_process_actions\<close> is \<open>while self.pending_actions: action = self.pending_actions.pop(0); ...\<close>
  on the live list. \<open>arrivals\<close> lists, for each iteration in turn, the tasks that producers
  hand to \<open>add_task\<close> while that iteration's action is being processed (none once the list
  is used up). The result is the actions processed, each with its log line, and the agent
  loop when the \<open>while\<close> condition fails.
\<close>

function process_actions_during ::
  "pydict list list \<Rightarrow> agent_loop \<Rightarrow> (pydict \<times> log_line) list \<times> agent_loop" where
  "process_actions_during arrivals al =
     (if pending_actions al = [] then ([], al)
      else
        (let action = hd (pending_actions al);
             popped = al\<lparr>pending_actions := tl (pending_actions al)\<rparr>;
             line = process_action action;
             enqueued = foldl add_task popped (case arrivals of [] \<Rightarrow> [] | ar # _ \<Rightarrow> ar);
             (processed, al') = process_actions_during (tl arrivals) enqueued
         in ((action, line) # processed, al')))"
  by pat_completeness auto

text \<open>
  Each iteration removes one action and adds that iteration's arrivals, so the number of
  queued and still arriving actions decreases: the loop ends on every finite schedule of
  arrivals.
\<close>

lemma pending_foldl_add_task:
  "pending_actions (foldl add_task al ts) = pending_actions al @ ts"
  by (induction ts arbitrary: al) (simp_all add: add_task_def)

termination process_actions_during
proof (relation
    "measure (\<lambda>(arrivals, al). length (pending_actions al) + sum_list (map length arrivals))")
  show "wf (measure (\<lambda>(arrivals, al).
      length (pending_actions al) + sum_list (map length arrivals)))"
    by simp
next
  fix arrivals :: "pydict list list" and al :: agent_loop and x xa xb xc
  assume "pending_actions al \<noteq> []"
    and "xa = al\<lparr>pending_actions := tl (pending_actions al)\<rparr>"
    and "xc = foldl add_task xa (case arrivals of [] \<Rightarrow> [] | ar # _ \<Rightarrow> ar)"
  then show "((tl arrivals, xc), arrivals, al)
       \<in> measure (\<lambda>(arrivals, al).
            length (pending_actions al) + sum_list (map length arrivals))"
    by (cases arrivals; cases "pending_actions al") (simp_all add: pending_foldl_add_task)
qed

declare process_actions_during.simps [simp del]

text \<open>
  The loop has no \<open>await\<close> in it, so under the daemon's cooperative scheduling no producer
  runs while it drains: \<open>_process_actions\<close> as the daemon runs it has no arrivals.
\<close>

definition process_actions :: "agent_loop \<Rightarrow> (pydict \<times> log_line) list \<times> agent_loop" where
  "process_actions al = process_actions_during [] al"

section \<open>The model manager (\<open>model_manager.py\<close>)\<close>

text \<open>
  Instants (\<open>datetime.now()\<close>) are values of a linear order \<open>'t\<close>; every reading of the clock
  is an input. Whether \<open>pipeline(task, model=model_name)\<close> (and the import before it) succeeds
  is an input as well, as is the outcome of running a pipeline on a prompt.
\<close>

datatype pipeline_handle = Pipeline string string

record 't model_info =
  pipeline :: pipeline_handle
  for_task :: string
  loaded_at :: 't
  usage_count :: int

record 't usage_info =
  last_used :: 't
  total_inferences :: int

record 't model_manager =
  loaded_models :: "(string \<times> 't model_info) list"
  model_usage :: "(string \<times> 't usage_info) list"
  max_loaded :: int
  default_model :: string

definition model_manager_init :: "int \<Rightarrow> string \<Rightarrow> 't model_manager" where
  "model_manager_init max_loaded_models dm =
     \<lparr>loaded_models = [], model_usage = [], max_loaded = max_loaded_models,
      default_model = dm\<rparr>"

text \<open>
  \<open>_unload_least_used\<close>. \<open>del self.loaded_models[lru_model]\<close> raises \<open>KeyError\<close> when the
  key is missing, before anything is deleted.
\<close>

definition unload_least_used :: "('t::linorder) model_manager \<Rightarrow> py_exn + 't model_manager" where
  "unload_least_used s =
     (case model_usage s of
        [] \<Rightarrow> Inr s
      | x # xs \<Rightarrow>
          (let lru_model = fst (py_min_by (\<lambda>x. last_used (snd x)) x xs) in
           if lru_model \<notin> set (dict_keys (loaded_models s)) then Inl KeyError
           else Inr (s\<lparr>loaded_models := AList.delete lru_model (loaded_models s),
                       model_usage := AList.delete lru_model (model_usage s)\<rparr>)))"

record 't load_env =
  pipeline_ok :: bool
  now_loaded :: 't
  now_used :: 't

text \<open>
  \<open>load_model\<close> returns the entry of the model, or \<open>None\<close> after any exception, and the
  manager as the call leaves it.
\<close>

definition load_model ::
  "string \<Rightarrow> string \<Rightarrow> 't load_env \<Rightarrow> ('t::linorder) model_manager
     \<Rightarrow> 't model_info option \<times> 't model_manager" where
  "load_model model_name tsk env s =
     (case map_of (loaded_models s) model_name of
        Some info \<Rightarrow> (Some info, s)
      | None \<Rightarrow>
          (case (if int (length (loaded_models s)) \<ge> max_loaded s then unload_least_used s
                 else Inr s) of
             Inl e \<Rightarrow> (None, s)
           | Inr s1 \<Rightarrow>
               if \<not> pipeline_ok env then (None, s1)
               else
                 (let info = \<lparr>pipeline = Pipeline tsk model_name, for_task = tsk,
                              loaded_at = now_loaded env, usage_count = 0\<rparr>;
                      s2 = s1\<lparr>loaded_models := AList.update model_name info (loaded_models s1),
                              model_usage := AList.update model_name
                                \<lparr>last_used = now_used env, total_inferences = 0\<rparr>
                                (model_usage s1)\<rparr>
                  in (map_of (loaded_models s2) model_name, s2))))"

record 't generate_env =
  on_miss :: "'t load_env"
  inference :: "string option"
  now_generated :: 't

text \<open>
  \<open>generate\<close> returns the pipeline's result, or \<open>None\<close> when the model is not available or
  anything raised. The usage count is incremented before \<open>model_usage\<close> is looked up.
\<close>

definition generate ::
  "string \<Rightarrow> string option \<Rightarrow> 't generate_env \<Rightarrow> ('t::linorder) model_manager
     \<Rightarrow> string option \<times> 't model_manager" where
  "generate prompt model_name_arg env s =
     (let model_name = (case model_name_arg of None \<Rightarrow> default_model s | Some n \<Rightarrow> n);
          s1 = (if model_name \<notin> set (dict_keys (loaded_models s))
                then snd (load_model model_name ''text-generation'' (on_miss env) s)
                else s)
      in case map_of (loaded_models s1) model_name of
           None \<Rightarrow> (None, s1)
         | Some info \<Rightarrow>
             (case inference env of
                None \<Rightarrow> (None, s1)
              | Some result \<Rightarrow>
                  (let s2 = s1\<lparr>loaded_models := AList.update model_name
                                  (info\<lparr>usage_count := usage_count info + 1\<rparr>)
                                  (loaded_models s1)\<rparr>
                   in case map_of (model_usage s2) model_name of
                        None \<Rightarrow> (None, s2)
                      | Some u \<Rightarrow>
                          (Some result,
                           s2\<lparr>model_usage := AList.update model_name
                                 (u\<lparr>total_inferences := total_inferences u + 1,
                                    last_used := now_generated env\<rparr>)
                                 (model_usage s2)\<rparr>))))"

definition cleanup :: "'t model_manager \<Rightarrow> 't model_manager" where
  "cleanup s = s\<lparr>loaded_models := [], model_usage := []\<rparr>"

text \<open>The calls that change the manager, and a sequence of them run from a state.\<close>

datatype 't manager_call =
    Load_model string string "'t load_env"
  | Generate string "string option" "'t generate_env"
  | Cleanup

fun apply_call :: "('t::linorder) manager_call \<Rightarrow> 't model_manager \<Rightarrow> 't model_manager" where
  "apply_call (Load_model model_name tsk env) s = snd (load_model model_name tsk env s)"
| "apply_call (Generate prompt model_name_arg env) s = snd (generate prompt model_name_arg env s)"
| "apply_call Cleanup s = cleanup s"

definition manager_calls ::
  "('t::linorder) manager_call list \<Rightarrow> 't model_manager \<Rightarrow> 't model_manager" where
  "manager_calls cs s = foldl (\<lambda>s c. apply_call c s) s cs"

section \<open>The task scheduler (\<open>task_scheduler.py\<close>)\<close>

record datetime =
  year :: int
  month :: int
  day :: int
  hour :: int
  minute :: int
  second :: int
  microsecond :: int

text \<open>
  The test \<open>field != '*' and int(field) != v\<close> of \<open>_should_execute\<close>: whether it holds, or
  the \<open>ValueError\<close> of \<open>int\<close>.
\<close>

definition field_mismatch :: "string \<Rightarrow> int \<Rightarrow> py_exn + bool" where
  "field_mismatch field v =
     (if field = ''*'' then Inr False
      else (case py_int field of None \<Rightarrow> Inl ValueError | Some n \<Rightarrow> Inr (n \<noteq> v)))"

text \<open>
  The body of the \<open>try\<close> in \<open>_should_execute\<close>. A task is a dictionary of the configuration;
  \<open>.split()\<close> on a schedule that is not a string raises \<open>AttributeError\<close>. Only the minute
  and the hour are compared ("For simplicity, we'll just check hour and minute").
\<close>

definition should_execute_try :: "pydict \<Rightarrow> datetime \<Rightarrow> py_exn + bool" where
  "should_execute_try task current_time =
     (case dict_get task ''schedule'' (Str []) of
        Str schedule \<Rightarrow>
          (case py_split schedule of
             [mi, h, d, mo, wd] \<Rightarrow>
               (case field_mismatch mi (minute current_time) of
                  Inl e \<Rightarrow> Inl e
                | Inr True \<Rightarrow> Inr False
                | Inr False \<Rightarrow>
                    (case field_mismatch h (hour current_time) of
                       Inl e \<Rightarrow> Inl e
                     | Inr True \<Rightarrow> Inr False
                     | Inr False \<Rightarrow> Inr True))
           | _ \<Rightarrow> Inr False)
      | _ \<Rightarrow> Inl AttributeError)"

text \<open>\<open>_should_execute\<close>: \<open>except Exception\<close> turns every exception but \<open>SystemExit\<close> into \<open>False\<close>.\<close>

definition should_execute :: "pydict \<Rightarrow> datetime \<Rightarrow> py_exn + bool" where
  "should_execute task current_time =
     (case should_execute_try task current_time of
        Inl (SystemExit n) \<Rightarrow> Inl (SystemExit n)
      | Inl _ \<Rightarrow> Inr False
      | Inr b \<Rightarrow> Inr b)"

record task_scheduler =
  tasks :: "pydict list"
  scheduler_running :: bool
  agent :: "agent_loop option"

text \<open>
  \<open>_execute_task\<close> routes on the task's action; the handlers hand a task to the agent loop,
  when there is one. \<open>stamp\<close> is the text of the clock the handlers read.
\<close>

definition generate_status_report :: "string \<Rightarrow> agent_loop option \<Rightarrow> agent_loop option" where
  "generate_status_report stamp ag =
     map_option (\<lambda>al. add_task al
       [''type'' \<mapsto> Str ''report'',
        ''data'' \<mapsto> Payload
          [(''timestamp'', stamp), (''type'', ''status_report''),
           (''content'', ''Daily autonomous status report generated''),
           (''daemon_uptime'', ''active''), (''models_loaded'', ''operational''),
           (''consciousness_level'', ''elevated'')]]) ag"

definition analyze_code_health :: "string \<Rightarrow> agent_loop option \<Rightarrow> agent_loop option" where
  "analyze_code_health stamp ag =
     map_option (\<lambda>al. add_task al
       [''type'' \<mapsto> Str ''code_health_check'', ''timestamp'' \<mapsto> Str stamp]) ag"

definition benchmark_models :: "string \<Rightarrow> agent_loop option \<Rightarrow> agent_loop option" where
  "benchmark_models stamp ag =
     map_option (\<lambda>al. add_task al
       [''type'' \<mapsto> Str ''benchmark'', ''timestamp'' \<mapsto> Str stamp]) ag"

text \<open>\<open>_record_thoughts\<close> reads the last five thoughts for a log line and changes nothing.\<close>

definition record_thoughts :: "agent_loop option \<Rightarrow> agent_loop option" where
  "record_thoughts ag =
     (case ag of
        None \<Rightarrow> None
      | Some al \<Rightarrow> (let recent_thoughts = get_recent_thoughts al 5 in Some al))"

definition execute_task :: "pydict \<Rightarrow> string \<Rightarrow> agent_loop option \<Rightarrow> agent_loop option" where
  "execute_task task stamp ag =
     (let action = dict_get task ''action'' (Str []) in
      if action = Str ''generate_status_report'' then generate_status_report stamp ag
      else if action = Str ''analyze_code_health'' then analyze_code_health stamp ag
      else if action = Str ''benchmark_models'' then benchmark_models stamp ag
      else if action = Str ''record_autonomous_thoughts'' then record_thoughts ag
      else ag)"

text \<open>
  \<open>_check_and_execute_tasks\<close> at one reading of the clock: the tasks executed, in order,
  and the scheduler afterwards.
\<close>

fun check_tasks ::
  "pydict list \<Rightarrow> datetime \<Rightarrow> string \<Rightarrow> agent_loop option \<Rightarrow> pydict list \<times> agent_loop option" where
  "check_tasks [] current_time stamp ag = ([], ag)"
| "check_tasks (task # rest) current_time stamp ag =
     (if should_execute task current_time = Inr True
      then (let (fired, ag') = check_tasks rest current_time stamp (execute_task task stamp ag)
            in (task # fired, ag'))
      else check_tasks rest current_time stamp ag)"

definition check_and_execute_tasks ::
  "datetime \<Rightarrow> string \<Rightarrow> task_scheduler \<Rightarrow> pydict list \<times> task_scheduler" where
  "check_and_execute_tasks current_time stamp sch =
     (let (fired, ag') = check_tasks (tasks sch) current_time stamp (agent sch)
      in (fired, sch\<lparr>agent := ag'\<rparr>))"

text \<open>
  \<open>run\<close>: one poll per iteration of \<open>while self.running\<close>, then \<open>asyncio.sleep(60)\<close>. The polls
  that happen before \<open>stop()\<close> are given by the clock readings of each; the scheduler keeps
  nothing between polls but the agent loop's queue.
\<close>

record poll_tick =
  tick_time :: datetime
  tick_stamp :: string

fun run_polls :: "poll_tick list \<Rightarrow> task_scheduler \<Rightarrow> pydict list \<times> task_scheduler" where
  "run_polls [] sch = ([], sch)"
| "run_polls (tk # tks) sch =
     (let (fired, sch1) = check_and_execute_tasks (tick_time tk) (tick_stamp tk) sch;
          (later, sch2) = run_polls tks sch1
      in (fired @ later, sch2))"

definition run :: "poll_tick list \<Rightarrow> task_scheduler \<Rightarrow> pydict list \<times> task_scheduler" where
  "run ticks sch = run_polls ticks (sch\<lparr>scheduler_running := True\<rparr>)"

section \<open>The daemon (\<open>daemon.py\<close>)\<close>

record 't daemon =
  daemon_running :: bool
  state :: daemon_state
  model_manager :: "'t model_manager option"

definition daemon_init :: "'t daemon" where
  "daemon_init =
     \<lparr>daemon_running = False,
      state = \<lparr>status = ''initializing'', uptime = 0, cycles_completed = 0,
               last_thought = None, consciousness_level = 0\<rparr>,
      model_manager = None\<rparr>"

text \<open>
  \<open>shutdown\<close> ends with \<open>sys.exit(0)\<close>, which raises \<open>SystemExit(0)\<close>: the call never returns
  normally. The result is how the call ends and the daemon it leaves.
\<close>

definition shutdown :: "'t daemon \<Rightarrow> (py_exn + unit) \<times> 't daemon" where
  "shutdown d =
     (let d1 = d\<lparr>daemon_running := False, state := (state d)\<lparr>status := ''shutdown''\<rparr>\<rparr>;
          d2 = (case model_manager d1 of
                  None \<Rightarrow> d1
                | Some m \<Rightarrow> d1\<lparr>model_manager := Some (cleanup m)\<rparr>)
      in (Inl (SystemExit 0), d2))"

section \<open>Predicates used in the properties\<close>

text \<open>
  The specification's words for a schedule field: a field matches a component of the
  instant when it is the wildcard or an integer equal to it; it is malformed when it is
  neither the wildcard nor an integer.
\<close>

definition field_matches :: "string \<Rightarrow> int \<Rightarrow> bool" where
  "field_matches field v = (field = ''*'' \<or> py_int field = Some v)"

definition malformed_field :: "string \<Rightarrow> bool" where
  "malformed_field field = (field \<noteq> ''*'' \<and> py_int field = None)"

text \<open>
  The two dictionaries of the model manager are kept in step: they hold the same keys in
  the same order, each once. Every state the manager reaches satisfies this.
\<close>

definition cache_ok :: "'t model_manager \<Rightarrow> bool" where
  "cache_ok s =
     (dict_keys (loaded_models s) = dict_keys (model_usage s) \<and>
      distinct (dict_keys (loaded_models s)))"

text \<open>
  The specification's words for the activity score: each fraction clamped to \<open>[0, 1]\<close>
  before weighting, and the total clamped to \<open>[0, 1]\<close>.
\<close>

definition clamp01 :: "real \<Rightarrow> real" where
  "clamp01 x = max 0 (min 1 x)"

definition clamped_activity_score :: "real \<Rightarrow> int \<Rightarrow> nat \<Rightarrow> real" where
  "clamped_activity_score up cycles thoughts_count =
     clamp01 (clamp01 (up / 86400) * (3 / 10)
              + clamp01 (real_of_int cycles / 10000) * (3 / 10)
              + clamp01 (real thoughts_count / 100) * (4 / 10))"

section \<open>The cron matcher\<close>

lemma field_mismatch_False:
  "field_mismatch f v = Inr False \<longleftrightarrow> (f = ''*'' \<or> py_int f = Some v)"
  by (auto simp: field_mismatch_def split: option.splits)

lemma field_mismatch_raises:
  "field_mismatch f v = Inl e \<longleftrightarrow> (f \<noteq> ''*'' \<and> py_int f = None \<and> e = ValueError)"
  by (auto simp: field_mismatch_def split: option.splits)

lemma case5_other:
  "length xs \<noteq> 5 \<Longrightarrow> (case xs of [a, b, c, d, e] \<Rightarrow> f a b c d e | _ \<Rightarrow> g) = g"
  by (auto split: list.splits)

lemma len5: "length xs = 5 \<Longrightarrow> \<exists>a b c d e. xs = [a, b, c, d, e]"
  by (auto simp: length_Suc_conv eval_nat_numeral)

lemma try_five_True:
  assumes "dict_get task ''schedule'' (Str []) = Str s"
    and "py_split s = [mi, h, d, mo, wd]"
  shows "should_execute_try task t = Inr True \<longleftrightarrow>
     (mi = ''*'' \<or> py_int mi = Some (minute t)) \<and> (h = ''*'' \<or> py_int h = Some (hour t))"
  using assms unfolding field_mismatch_False[symmetric]
  by (auto simp add: should_execute_try_def split: sum.splits bool.splits)

lemma try_five_exn:
  assumes "dict_get task ''schedule'' (Str []) = Str s"
    and "py_split s = [mi, h, d, mo, wd]"
    and "should_execute_try task t = Inl e"
  shows "e = ValueError"
  using assms
  by (auto simp add: should_execute_try_def field_mismatch_raises split: sum.splits bool.splits)

lemma try_not_five:
  "dict_get task ''schedule'' (Str []) = Str s \<Longrightarrow> length (py_split s) \<noteq> 5
   \<Longrightarrow> should_execute_try task t = Inr False"
  by (simp add: should_execute_try_def case5_other)

lemma try_not_str:
  "\<forall>s. dict_get task ''schedule'' (Str []) \<noteq> Str s
   \<Longrightarrow> should_execute_try task t = Inl AttributeError"
  by (simp add: should_execute_try_def split: pyval.splits)

text \<open>The body of the \<open>try\<close> never raises \<open>SystemExit\<close>, so \<open>except Exception\<close> catches all it raises.\<close>

lemma try_no_exit: "should_execute_try task t \<noteq> Inl (SystemExit n)"
proof (cases "\<exists>s. dict_get task ''schedule'' (Str []) = Str s")
  case False
  then show ?thesis using try_not_str[of task t] by simp
next
  case True
  then obtain s where s: "dict_get task ''schedule'' (Str []) = Str s" by blast
  show ?thesis
  proof (cases "length (py_split s) = 5")
    case False
    then show ?thesis using try_not_five[of task s t] s by simp
  next
    case True
    then obtain mi h d mo wd where "py_split s = [mi, h, d, mo, wd]" using len5 by blast
    then show ?thesis using try_five_exn[of task s _ _ _ _ _ t] s by auto
  qed
qed

lemma should_execute_returns:
  "should_execute task t = Inr (should_execute_try task t = Inr True)"
  using try_no_exit[of task t]
  by (cases "should_execute_try task t") (auto simp: should_execute_def split: py_exn.splits)

text \<open>
  A field of too many digits is not an integer for \<open>int\<close>, whatever its value: a field of
  more than 4300 zeros matches no minute and no hour.
\<close>

lemma parse_unsigned_limit:
  "length (filter is_digit s) > int_max_str_digits \<Longrightarrow> parse_unsigned s = None"
  by (cases s) (simp_all add: parse_unsigned_def)

lemma py_int_long_zeros:
  assumes "int_max_str_digits < n"
  shows "py_int (replicate n (CHR ''0'')) = None"
proof -
  have d: "is_digit (CHR ''0'')" by (simp add: is_digit_def)
  have ns: "\<not> int_isspace (CHR ''0'')" by (simp add: int_isspace_def)
  have st: "py_strip (replicate n (CHR ''0'')) = replicate n (CHR ''0'')"
    using ns by (simp add: py_strip_def dropWhile_replicate)
  have "length (filter is_digit (replicate n (CHR ''0''))) = n"
    using d by simp
  then have pu: "parse_unsigned (replicate n (CHR ''0'')) = None"
    using assms by (simp add: parse_unsigned_limit)
  from assms obtain m where n: "n = Suc m" by (cases n) auto
  show ?thesis
    using pu unfolding py_int_def st by (simp add: n)
qed

lemma long_zero_field_never_matches:
  "int_max_str_digits < n \<Longrightarrow> \<not> field_matches (replicate n (CHR ''0'')) v"
proof -
  assume big: "int_max_str_digits < n"
  then obtain m where "n = Suc m" by (cases n) auto
  then have "replicate n (CHR ''0'') \<noteq> ''*''" by simp
  with py_int_long_zeros[OF big] show ?thesis by (simp add: field_matches_def)
qed



text \<open>
  C9 (as amended). A schedule with a wrong number of fields, or whose minute field or hour
  field is neither the wildcard nor an integer, never fires, at any instant, and
  \<open>_should_execute\<close> does not raise: it returns false. In particular \<open>a b\<close> never fires.
  (A malformed day-of-month, month or weekday field is not detected.)
\<close>

theorem malformed_minute_or_hour_never_fires:
  "(dict_get task ''schedule'' (Str []) = Str s \<and> length (py_split s) \<noteq> 5
      \<longrightarrow> should_execute task t = Inr False) \<and>
   (dict_get task ''schedule'' (Str []) = Str s \<and> py_split s = [mi, h, d, mo, wd] \<and>
    (malformed_field mi \<or> malformed_field h)
      \<longrightarrow> should_execute task t = Inr False) \<and>
   should_execute [''schedule'' \<mapsto> Str ''a b''] t = Inr False"
proof (intro conjI impI)
  assume "dict_get task ''schedule'' (Str []) = Str s \<and> length (py_split s) \<noteq> 5"
  then have "should_execute_try task t = Inr False"
    using try_not_five[of task s t] by simp
  then show "should_execute task t = Inr False"
    by (simp add: should_execute_returns)
next
  assume a: "dict_get task ''schedule'' (Str []) = Str s \<and> py_split s = [mi, h, d, mo, wd] \<and>
    (malformed_field mi \<or> malformed_field h)"
  then have "\<not> (field_matches mi (minute t) \<and> field_matches h (hour t))"
    by (auto simp: malformed_field_def field_matches_def)
  with a try_five_True[of task s mi h d mo wd t]
  have "should_execute_try task t \<noteq> Inr True"
    by (simp add: field_matches_def)
  then show "should_execute task t = Inr False"
    by (simp add: should_execute_returns)
next
  have "dict_get [''schedule'' \<mapsto> Str ''a b''] ''schedule'' (Str []) = Str ''a b''"
    by (simp add: dict_get_def)
  moreover have "length (py_split ''a b'') \<noteq> 5"
    by code_simp
  ultimately have "should_execute_try [''schedule'' \<mapsto> Str ''a b''] t = Inr False"
    by (rule try_not_five)
  then show "should_execute [''schedule'' \<mapsto> Str ''a b''] t = Inr False"
    by (simp add: should_execute_returns)
qed

text \<open>
  The theorem at \<open>a b\<close> (two fields) and at \<open>* 9x * * *\<close> (an hour field that is not an
  integer), at 09:00 on the 14th of January 2024.
\<close>

theorem malformed_minute_or_hour_never_fires_witness:
  "dict_get [''schedule'' \<mapsto> Str ''a b''] ''schedule'' (Str []) = Str ''a b'' \<and>
   length (py_split ''a b'') \<noteq> 5 \<and>
   should_execute [''schedule'' \<mapsto> Str ''a b'']
     \<lparr>year = 2024, month = 1, day = 14, hour = 9, minute = 0, second = 0, microsecond = 0\<rparr>
     = Inr False \<and>
   dict_get [''schedule'' \<mapsto> Str ''* 9x * * *''] ''schedule'' (Str []) = Str ''* 9x * * *'' \<and>
   py_split ''* 9x * * *'' = [''*'', ''9x'', ''*'', ''*'', ''*''] \<and>
   (malformed_field ''*'' \<or> malformed_field ''9x'') \<and>
   should_execute [''schedule'' \<mapsto> Str ''* 9x * * *'']
     \<lparr>year = 2024, month = 1, day = 14, hour = 9, minute = 0, second = 0, microsecond = 0\<rparr>
     = Inr False"
proof -
  have a: "dict_get [''schedule'' \<mapsto> Str ''a b''] ''schedule'' (Str []) = Str ''a b''"
    by (simp add: dict_get_def)
  have b: "length (py_split ''a b'') \<noteq> 5"
    by code_simp
  have c: "dict_get [''schedule'' \<mapsto> Str ''* 9x * * *''] ''schedule'' (Str []) = Str ''* 9x * * *''"
    by (simp add: dict_get_def)
  have d: "py_split ''* 9x * * *'' = [''*'', ''9x'', ''*'', ''*'', ''*'']"
    by code_simp
  have e: "malformed_field ''*'' \<or> malformed_field ''9x''"
    by code_simp
  show ?thesis
    using a b c d e
      malformed_minute_or_hour_never_fires
        [of "[''schedule'' \<mapsto> Str ''a b'']" "''a b''"
            "\<lparr>year = 2024, month = 1, day = 14, hour = 9, minute = 0, second = 0, microsecond = 0\<rparr>"]
      malformed_minute_or_hour_never_fires
        [of "[''schedule'' \<mapsto> Str ''* 9x * * *'']" "''* 9x * * *''"
            "\<lparr>year = 2024, month = 1, day = 14, hour = 9, minute = 0, second = 0, microsecond = 0\<rparr>"
            "''*''" "''9x''" "''*''" "''*''" "''*''"]
    by blast
qed

text \<open>
  C9 as stated fails: \<open>* * x * *\<close> has a day-of-month field that is neither the wildcard nor
  an integer, and it fires.
\<close>

theorem malformed_day_field_fires:
  "malformed_field ''x'' \<and>
   py_split ''* * x * *'' = [''*'', ''*'', ''x'', ''*'', ''*''] \<and>
   should_execute [''schedule'' \<mapsto> Str ''* * x * *'']
     \<lparr>year = 2024, month = 1, day = 14, hour = 9, minute = 0, second = 0, microsecond = 0\<rparr>
     = Inr True"
  by code_simp

section \<open>The scheduler's polls\<close>

lemma check_tasks_fired:
  "fst (check_tasks ts t stamp ag) = filter (\<lambda>task. should_execute task t = Inr True) ts"
  by (induction ts arbitrary: ag) (simp_all add: split_beta)

lemma check_and_execute_tasks_fired:
  "fst (check_and_execute_tasks t stamp sch)
     = filter (\<lambda>task. should_execute task t = Inr True) (tasks sch)"
  by (simp add: check_and_execute_tasks_def split_beta check_tasks_fired)

lemma check_and_execute_tasks_tasks:
  "tasks (snd (check_and_execute_tasks t stamp sch)) = tasks sch"
  by (simp add: check_and_execute_tasks_def split_beta)

lemma run_polls_fired:
  "fst (run_polls ticks sch) =
     concat (map (\<lambda>tk. filter (\<lambda>task. should_execute task (tick_time tk) = Inr True) (tasks sch))
               ticks)"
proof (induction ticks arbitrary: sch)
  case Nil
  show ?case by simp
next
  case (Cons tk tks)
  show ?case
    by (simp add: split_beta Cons.IH check_and_execute_tasks_fired check_and_execute_tasks_tasks)
qed

text \<open>
  C6 (as amended). The scheduler keeps no last-fired instant: at every poll it executes
  every task whose schedule matches the instant of that poll, once, in the order of the
  task list. A task is executed once for each poll that matches, so twice in a minute in
  which two polls fall; only the sleep of sixty seconds between polls keeps polls apart.
\<close>

theorem run_fires_at_every_matching_poll:
  "fst (run ticks sch) =
     concat (map (\<lambda>tk. filter (\<lambda>task. should_execute task (tick_time tk) = Inr True) (tasks sch))
               ticks)"
  by (simp add: run_def run_polls_fired)

text \<open>
  C6 as stated fails: with polls at 09:00:05 and at 09:00:50 of the same day, the job
  \<open>t1\<close> scheduled \<open>* * * * *\<close> is executed twice within that minute.
\<close>

theorem run_fires_twice_in_one_minute:
  "length (fst (run
     [\<lparr>tick_time = \<lparr>year = 2024, month = 1, day = 14, hour = 9, minute = 0, second = 5,
                     microsecond = 0\<rparr>, tick_stamp = ''2024-01-14T09:00:05''\<rparr>,
      \<lparr>tick_time = \<lparr>year = 2024, month = 1, day = 14, hour = 9, minute = 0, second = 50,
                     microsecond = 0\<rparr>, tick_stamp = ''2024-01-14T09:00:50''\<rparr>]
     \<lparr>tasks = [[''name'' \<mapsto> Str ''t1'', ''schedule'' \<mapsto> Str ''* * * * *'',
                 ''action'' \<mapsto> Str ''noop'']],
      scheduler_running = False, agent = None\<rparr>)) = 2"
  by code_simp

section \<open>The thought log\<close>

lemma slice_last: "0 < c \<Longrightarrow> py_slice_from (- c) xs = drop (length xs - nat c) xs"
  unfolding py_slice_from_def Let_def
  by (auto simp: max_def intro!: arg_cong[where f="\<lambda>n. drop n xs"])

lemma slice_zero: "py_slice_from 0 xs = xs"
  unfolding py_slice_from_def Let_def by simp

text \<open>
  C10. \<open>get_recent_thoughts(count)\<close> returns the last \<open>count\<close> thoughts (all of them when
  there are fewer) for \<open>count >= 1\<close>; for \<open>count = 0\<close> it returns the whole log, not the
  empty list, since \<open>thoughts[-0:]\<close> is \<open>thoughts[0:]\<close>.
\<close>

theorem get_recent_thoughts_zero_is_all:
  "(1 \<le> count \<longrightarrow>
      get_recent_thoughts al count = drop (length (thoughts al) - nat count) (thoughts al)) \<and>
   get_recent_thoughts al 0 = thoughts al"
  by (simp add: get_recent_thoughts_def slice_last slice_zero)

text \<open>On a log of three thoughts: the last two for \<open>count = 2\<close>, all three for \<open>count = 0\<close>.\<close>

theorem get_recent_thoughts_zero_is_all_witness:
  "(1::int) \<le> 2 \<and>
   get_recent_thoughts
     \<lparr>running = True, consciousness_mode = True,
      thoughts =
        [\<lparr>cycle = 1, timestamp = ''t1'', thought = ''first'', thought_type = ''autonomous''\<rparr>,
         \<lparr>cycle = 2, timestamp = ''t2'', thought = ''second'', thought_type = ''autonomous''\<rparr>,
         \<lparr>cycle = 3, timestamp = ''t3'', thought = ''third'', thought_type = ''autonomous''\<rparr>],
      pending_actions = []\<rparr> 2 =
     [\<lparr>cycle = 2, timestamp = ''t2'', thought = ''second'', thought_type = ''autonomous''\<rparr>,
      \<lparr>cycle = 3, timestamp = ''t3'', thought = ''third'', thought_type = ''autonomous''\<rparr>] \<and>
   get_recent_thoughts
     \<lparr>running = True, consciousness_mode = True,
      thoughts =
        [\<lparr>cycle = 1, timestamp = ''t1'', thought = ''first'', thought_type = ''autonomous''\<rparr>,
         \<lparr>cycle = 2, timestamp = ''t2'', thought = ''second'', thought_type = ''autonomous''\<rparr>,
         \<lparr>cycle = 3, timestamp = ''t3'', thought = ''third'', thought_type = ''autonomous''\<rparr>],
      pending_actions = []\<rparr> 0 =
     [\<lparr>cycle = 1, timestamp = ''t1'', thought = ''first'', thought_type = ''autonomous''\<rparr>,
      \<lparr>cycle = 2, timestamp = ''t2'', thought = ''second'', thought_type = ''autonomous''\<rparr>,
      \<lparr>cycle = 3, timestamp = ''t3'', thought = ''third'', thought_type = ''autonomous''\<rparr>]"
  using get_recent_thoughts_zero_is_all
    [of 2 "\<lparr>running = True, consciousness_mode = True,
      thoughts =
        [\<lparr>cycle = 1, timestamp = ''t1'', thought = ''first'', thought_type = ''autonomous''\<rparr>,
         \<lparr>cycle = 2, timestamp = ''t2'', thought = ''second'', thought_type = ''autonomous''\<rparr>,
         \<lparr>cycle = 3, timestamp = ''t3'', thought = ''third'', thought_type = ''autonomous''\<rparr>],
      pending_actions = []\<rparr>"]
  by simp

section \<open>The model manager's cache\<close>

text \<open>\<open>min\<close> with a key returns an item of the list, of minimal key, and the first such.\<close>

lemma py_min_by_le: "key (py_min_by key best ys) \<le> key best"
  by (induction ys arbitrary: best) (auto intro: order_trans less_imp_le)

lemma py_min_by_mem: "py_min_by key best ys \<in> set (best # ys)"
  by (induction ys arbitrary: best) auto

lemma py_min_by_split:
  "\<exists>pre post. best # ys = pre @ py_min_by key best ys # post \<and>
     (\<forall>e\<in>set pre. key (py_min_by key best ys) < key e) \<and>
     (\<forall>e\<in>set post. key (py_min_by key best ys) \<le> key e)"
proof (induction ys arbitrary: best)
  case Nil
  have "[best] = [] @ py_min_by key best [] # [] \<and>
     (\<forall>e\<in>set []. key (py_min_by key best []) < key e) \<and>
     (\<forall>e\<in>set []. key (py_min_by key best []) \<le> key e)" by simp
  then show ?case by blast
next
  case (Cons y ys)
  show ?case
  proof (cases "key y < key best")
    case True
    let ?m = "py_min_by key y ys"
    have eq: "py_min_by key best (y # ys) = ?m" using True by simp
    from Cons.IH[of y] obtain pre post where
      sp: "y # ys = pre @ ?m # post" and
      lt: "\<forall>e\<in>set pre. key ?m < key e" and
      le: "\<forall>e\<in>set post. key ?m \<le> key e" by blast
    have mb: "key ?m < key best" using py_min_by_le[of key y ys] True by simp
    have "best # y # ys = (best # pre) @ ?m # post" using sp by simp
    moreover have "\<forall>e\<in>set (best # pre). key ?m < key e" using lt mb by simp
    ultimately show ?thesis unfolding eq using le by blast
  next
    case False
    let ?m = "py_min_by key best ys"
    have eq: "py_min_by key best (y # ys) = ?m" using False by simp
    from Cons.IH[of best] obtain pre post where
      sp: "best # ys = pre @ ?m # post" and
      lt: "\<forall>e\<in>set pre. key ?m < key e" and
      le: "\<forall>e\<in>set post. key ?m \<le> key e" by blast
    show ?thesis
    proof (cases pre)
      case Nil
      with sp have m: "?m = best" and post: "post = ys" by auto
      have "best # y # ys = [] @ ?m # (y # ys)" using m by simp
      moreover have "\<forall>e\<in>set (y # ys). key ?m \<le> key e" using le post m False by auto
      moreover have "\<forall>e\<in>set []. key ?m < key e" by simp
      ultimately show ?thesis unfolding eq by blast
    next
      case (Cons b pre')
      with sp have b: "b = best" and ys: "ys = pre' @ ?m # post" by auto
      from lt Cons b have mb: "key ?m < key best" by simp
      with False have my: "key ?m < key y" by simp
      have "best # y # ys = (best # y # pre') @ ?m # post" using ys by simp
      moreover have "\<forall>e\<in>set (best # y # pre'). key ?m < key e"
        using lt Cons mb my by simp
      ultimately show ?thesis unfolding eq using le by blast
    qed
  qed
qed

lemma length_delete_distinct:
  "distinct (map fst al) \<Longrightarrow> k \<in> set (map fst al) \<Longrightarrow> Suc (length (AList.delete k al)) = length al"
  by (induction al) (auto simp: rev_image_eqI)

lemma keys_update_new:
  "k \<notin> set (map fst al) \<Longrightarrow> map fst (AList.update k v al) = map fst al @ [k]"
  by (simp add: update_keys)

lemma keys_update_old:
  "k \<in> set (map fst al) \<Longrightarrow> map fst (AList.update k v al) = map fst al"
  by (simp add: update_keys)

lemma map_of_None_keys: "map_of al k = None \<longleftrightarrow> k \<notin> set (map fst al)"
  by (simp add: map_of_eq_None_iff)

text \<open>Eviction and insertion keep the two dictionaries in step.\<close>

lemma cache_ok_iff:
  "cache_ok s \<longleftrightarrow>
     map fst (model_usage s) = map fst (loaded_models s) \<and> distinct (map fst (loaded_models s))"
  by (auto simp: cache_ok_def dict_keys_def)

lemma unload_empty:
  "model_usage s = [] \<Longrightarrow> unload_least_used s = Inr s"
  by (simp add: unload_least_used_def)

lemma unload_nonempty:
  assumes ok: "cache_ok s" and ne: "model_usage s = x # xs"
  shows "unload_least_used s =
     Inr (s\<lparr>loaded_models := AList.delete (fst (py_min_by (\<lambda>x. last_used (snd x)) x xs)) (loaded_models s),
            model_usage := AList.delete (fst (py_min_by (\<lambda>x. last_used (snd x)) x xs)) (model_usage s)\<rparr>)"
proof -
  let ?lru = "fst (py_min_by (\<lambda>x. last_used (snd x)) x xs)"
  have "py_min_by (\<lambda>x. last_used (snd x)) x xs \<in> set (model_usage s)"
    using py_min_by_mem[of "\<lambda>x. last_used (snd x)" x xs] ne by simp
  then have "?lru \<in> set (dict_keys (model_usage s))"
    by (simp add: dict_keys_def)
  then have "?lru \<in> set (dict_keys (loaded_models s))"
    using ok by (simp add: cache_ok_def)
  then show ?thesis
    using ne by (simp add: unload_least_used_def Let_def)
qed

lemma cache_ok_delete:
  assumes "cache_ok s"
  shows "cache_ok (s\<lparr>loaded_models := AList.delete k (loaded_models s),
                     model_usage := AList.delete k (model_usage s)\<rparr>)"
  using assms by (auto simp: cache_ok_iff delete_keys distinct_removeAll)

lemma unload_ok:
  assumes ok: "cache_ok s"
  shows "\<exists>s'. unload_least_used s = Inr s' \<and> cache_ok s' \<and> max_loaded s' = max_loaded s \<and>
           default_model s' = default_model s \<and>
           set (dict_keys (loaded_models s')) \<subseteq> set (dict_keys (loaded_models s)) \<and>
           (if loaded_models s = [] then s' = s
            else Suc (length (loaded_models s')) = length (loaded_models s))"
proof (cases "model_usage s")
  case Nil
  then have "dict_keys (loaded_models s) = []" using ok by (simp add: cache_ok_def dict_keys_def)
  then have "loaded_models s = []" by (simp add: dict_keys_def)
  with Nil ok show ?thesis by (simp add: unload_empty)
next
  case (Cons x xs)
  let ?lru = "fst (py_min_by (\<lambda>x. last_used (snd x)) x xs)"
  let ?s' = "s\<lparr>loaded_models := AList.delete ?lru (loaded_models s),
                model_usage := AList.delete ?lru (model_usage s)\<rparr>"
  have un: "unload_least_used s = Inr ?s'" by (rule unload_nonempty[OF ok Cons])
  have "py_min_by (\<lambda>x. last_used (snd x)) x xs \<in> set (model_usage s)"
    using py_min_by_mem[of "\<lambda>x. last_used (snd x)" x xs] Cons by simp
  then have "?lru \<in> set (map fst (model_usage s))" by simp
  then have mem: "?lru \<in> set (map fst (loaded_models s))"
    using ok by (simp add: cache_ok_def dict_keys_def)
  then have ne: "loaded_models s \<noteq> []" by auto
  have len: "Suc (length (loaded_models ?s')) = length (loaded_models s)"
    using length_delete_distinct[OF _ mem] ok by (auto simp: cache_ok_iff)
  have sub: "set (dict_keys (loaded_models ?s')) \<subseteq> set (dict_keys (loaded_models s))"
    by (auto simp: dict_keys_def delete_keys)
  show ?thesis
    using un cache_ok_delete[OF ok, of ?lru] len sub ne by simp
qed

lemma cache_ok_insert:
  assumes ok: "cache_ok s" and new: "model_name \<notin> set (dict_keys (loaded_models s))"
  shows "cache_ok (s\<lparr>loaded_models := AList.update model_name info (loaded_models s),
                     model_usage := AList.update model_name u (model_usage s)\<rparr>)"
  using assms by (auto simp: cache_ok_iff dict_keys_def update_keys)

lemma length_insert:
  "model_name \<notin> set (dict_keys al) \<Longrightarrow> length (AList.update model_name v al) = Suc (length al)"
  using keys_update_new[of model_name al v]
  by (metis dict_keys_def length_append_singleton length_map)

lemma load_model_hit:
  "map_of (loaded_models s) model_name = Some info \<Longrightarrow> load_model model_name tsk env s = (Some info, s)"
  by (simp add: load_model_def)

lemma load_model_miss:
  assumes ok: "cache_ok s" and miss: "map_of (loaded_models s) model_name = None"
  shows "\<exists>s1. (if max_loaded s \<le> int (length (loaded_models s)) then unload_least_used s else Inr s) = Inr s1 \<and>
     cache_ok s1 \<and> max_loaded s1 = max_loaded s \<and> default_model s1 = default_model s \<and>
     model_name \<notin> set (dict_keys (loaded_models s1)) \<and>
     (if max_loaded s \<le> int (length (loaded_models s)) \<and> loaded_models s \<noteq> []
      then Suc (length (loaded_models s1)) = length (loaded_models s) else s1 = s) \<and>
     load_model model_name tsk env s =
       (if \<not> pipeline_ok env then (None, s1)
        else (Some \<lparr>pipeline = Pipeline tsk model_name, for_task = tsk,
                     loaded_at = now_loaded env, usage_count = 0\<rparr>,
              s1\<lparr>loaded_models := AList.update model_name
                     \<lparr>pipeline = Pipeline tsk model_name, for_task = tsk,
                      loaded_at = now_loaded env, usage_count = 0\<rparr> (loaded_models s1),
                  model_usage := AList.update model_name
                     \<lparr>last_used = now_used env, total_inferences = 0\<rparr> (model_usage s1)\<rparr>))"
proof -
  have notin: "model_name \<notin> set (dict_keys (loaded_models s))"
    using miss by (simp add: dict_keys_def map_of_eq_None_iff)
  show ?thesis
  proof (cases "max_loaded s \<le> int (length (loaded_models s))")
    case False
    then show ?thesis
      using ok miss notin by (simp add: load_model_def Let_def update_conv')
  next
    case True
    from unload_ok[OF ok] obtain s1 where
      un: "unload_least_used s = Inr s1" and ok1: "cache_ok s1"
      and ml: "max_loaded s1 = max_loaded s" and dm: "default_model s1 = default_model s"
      and sub: "set (dict_keys (loaded_models s1)) \<subseteq> set (dict_keys (loaded_models s))"
      and len: "if loaded_models s = [] then s1 = s
                else Suc (length (loaded_models s1)) = length (loaded_models s)"
      by blast
    have notin1: "model_name \<notin> set (dict_keys (loaded_models s1))" using sub notin by blast
    have lm: "load_model model_name tsk env s =
       (if \<not> pipeline_ok env then (None, s1)
        else (Some \<lparr>pipeline = Pipeline tsk model_name, for_task = tsk,
                     loaded_at = now_loaded env, usage_count = 0\<rparr>,
              s1\<lparr>loaded_models := AList.update model_name
                     \<lparr>pipeline = Pipeline tsk model_name, for_task = tsk,
                      loaded_at = now_loaded env, usage_count = 0\<rparr> (loaded_models s1),
                  model_usage := AList.update model_name
                     \<lparr>last_used = now_used env, total_inferences = 0\<rparr> (model_usage s1)\<rparr>))"
      using True un miss by (simp add: load_model_def Let_def update_conv')
    show ?thesis
      using True un ok1 ml dm notin1 len lm by (cases "loaded_models s = []") auto
  qed
qed

lemma load_model_inv:
  assumes ok: "cache_ok s" and bound: "int (length (loaded_models s)) \<le> max_loaded s"
    and cap: "1 \<le> max_loaded s"
  shows "cache_ok (snd (load_model model_name tsk env s)) \<and>
         max_loaded (snd (load_model model_name tsk env s)) = max_loaded s \<and>
         default_model (snd (load_model model_name tsk env s)) = default_model s \<and>
         int (length (loaded_models (snd (load_model model_name tsk env s)))) \<le> max_loaded s"
proof (cases "map_of (loaded_models s) model_name")
  case (Some info)
  then show ?thesis using ok bound by (simp add: load_model_hit)
next
  case None
  from load_model_miss[OF ok None, of tsk env] obtain s1 where
    ok1: "cache_ok s1" and ml: "max_loaded s1 = max_loaded s"
    and dm: "default_model s1 = default_model s"
    and notin1: "model_name \<notin> set (dict_keys (loaded_models s1))"
    and len: "if max_loaded s \<le> int (length (loaded_models s)) \<and> loaded_models s \<noteq> []
      then Suc (length (loaded_models s1)) = length (loaded_models s) else s1 = s"
    and lm: "load_model model_name tsk env s =
       (if \<not> pipeline_ok env then (None, s1)
        else (Some \<lparr>pipeline = Pipeline tsk model_name, for_task = tsk,
                     loaded_at = now_loaded env, usage_count = 0\<rparr>,
              s1\<lparr>loaded_models := AList.update model_name
                     \<lparr>pipeline = Pipeline tsk model_name, for_task = tsk,
                      loaded_at = now_loaded env, usage_count = 0\<rparr> (loaded_models s1),
                  model_usage := AList.update model_name
                     \<lparr>last_used = now_used env, total_inferences = 0\<rparr> (model_usage s1)\<rparr>))"
    by blast
  have len1: "int (length (loaded_models s1)) \<le> max_loaded s \<and>
              int (Suc (length (loaded_models s1))) \<le> max_loaded s"
  proof (cases "max_loaded s \<le> int (length (loaded_models s))")
    case True
    with cap have "loaded_models s \<noteq> []" by auto
    with True len have "Suc (length (loaded_models s1)) = length (loaded_models s)" by simp
    with bound show ?thesis by linarith
  next
    case False
    with len have "s1 = s" by simp
    with False show ?thesis by simp
  qed
  show ?thesis
  proof (cases "pipeline_ok env")
    case False
    with lm ok1 ml dm len1 show ?thesis by simp
  next
    case True
    with lm ok1 ml dm len1 notin1 cache_ok_insert[OF ok1 notin1] length_insert[OF notin1]
    show ?thesis by simp
  qed
qed

lemma length_update_old:
  "k \<in> set (map fst al) \<Longrightarrow> length (AList.update k v al) = length al"
  using keys_update_old[of k al v] by (metis length_map)

lemma cache_ok_touch:
  assumes ok: "cache_ok s" and mem: "model_name \<in> set (map fst (loaded_models s))"
  shows "cache_ok (s\<lparr>loaded_models := AList.update model_name info (loaded_models s),
                     model_usage := AList.update model_name u (model_usage s)\<rparr>)"
  using assms by (auto simp: cache_ok_iff update_keys)

text \<open>What \<open>generate\<close> does once the model is loaded (\<open>s1\<close> is the manager at that point).\<close>

lemma generate_use:
  assumes ok1: "cache_ok s1" and info: "map_of (loaded_models s1) model_name = Some info"
  shows "\<exists>u. map_of (model_usage s1) model_name = Some u \<and>
     (let s2 = s1\<lparr>loaded_models := AList.update model_name
                                  (info\<lparr>usage_count := usage_count info + 1\<rparr>)
                                  (loaded_models s1)\<rparr>
                   in case map_of (model_usage s2) model_name of
                        None \<Rightarrow> (None, s2)
                      | Some u \<Rightarrow>
                          (Some result,
                           s2\<lparr>model_usage := AList.update model_name
                                 (u\<lparr>total_inferences := total_inferences u + 1,
                                    last_used := now_generated env\<rparr>)
                                 (model_usage s2)\<rparr>))
      = (Some result,
         s1\<lparr>loaded_models := AList.update model_name
               (info\<lparr>usage_count := usage_count info + 1\<rparr>) (loaded_models s1),
            model_usage := AList.update model_name
               (u\<lparr>total_inferences := total_inferences u + 1, last_used := now_generated env\<rparr>)
               (model_usage s1)\<rparr>)"
proof -
  from info have "model_name \<in> set (map fst (loaded_models s1))"
    by (metis map_of_eq_None_iff option.distinct(1) set_map)
  then have "model_name \<in> set (map fst (model_usage s1))"
    using ok1 by (simp add: cache_ok_iff)
  then obtain u where u: "map_of (model_usage s1) model_name = Some u"
    by (metis map_of_eq_None_iff not_Some_eq set_map)
  then show ?thesis by (simp add: Let_def)
qed

lemma generate_inv:
  assumes ok: "cache_ok s" and bound: "int (length (loaded_models s)) \<le> max_loaded s"
    and cap: "1 \<le> max_loaded s"
  shows "cache_ok (snd (generate prompt model_name_arg env s)) \<and>
         max_loaded (snd (generate prompt model_name_arg env s)) = max_loaded s \<and>
         default_model (snd (generate prompt model_name_arg env s)) = default_model s \<and>
         int (length (loaded_models (snd (generate prompt model_name_arg env s)))) \<le> max_loaded s"
proof -
  define model_name where
    "model_name = (case model_name_arg of None \<Rightarrow> default_model s | Some n \<Rightarrow> n)"
  define s1 where
    "s1 = (if model_name \<notin> set (dict_keys (loaded_models s))
           then snd (load_model model_name ''text-generation'' (on_miss env) s) else s)"
  have inv1: "cache_ok s1 \<and> max_loaded s1 = max_loaded s \<and> default_model s1 = default_model s \<and>
      int (length (loaded_models s1)) \<le> max_loaded s"
    using load_model_inv[OF ok bound cap] ok bound by (simp add: s1_def)
  have g: "generate prompt model_name_arg env s =
     (case map_of (loaded_models s1) model_name of
           None \<Rightarrow> (None, s1)
         | Some info \<Rightarrow>
             (case inference env of
                None \<Rightarrow> (None, s1)
              | Some result \<Rightarrow>
                  (let s2 = s1\<lparr>loaded_models := AList.update model_name
                                  (info\<lparr>usage_count := usage_count info + 1\<rparr>)
                                  (loaded_models s1)\<rparr>
                   in case map_of (model_usage s2) model_name of
                        None \<Rightarrow> (None, s2)
                      | Some u \<Rightarrow>
                          (Some result,
                           s2\<lparr>model_usage := AList.update model_name
                                 (u\<lparr>total_inferences := total_inferences u + 1,
                                    last_used := now_generated env\<rparr>)
                                 (model_usage s2)\<rparr>))))"
    unfolding generate_def Let_def model_name_def s1_def by (rule refl)
  show ?thesis
  proof (cases "map_of (loaded_models s1) model_name")
    case None
    then show ?thesis using g inv1 by simp
  next
    case (Some info)
    show ?thesis
    proof (cases "inference env")
      case None
      then show ?thesis using g Some inv1 by simp
    next
      case (Some result)
      from inv1 have ok1: "cache_ok s1" by simp
      from generate_use[OF ok1 \<open>map_of (loaded_models s1) model_name = Some info\<close>, of result env]
      obtain u where
        eq: "generate prompt model_name_arg env s = (Some result,
         s1\<lparr>loaded_models := AList.update model_name
               (info\<lparr>usage_count := usage_count info + 1\<rparr>) (loaded_models s1),
            model_usage := AList.update model_name
               (u\<lparr>total_inferences := total_inferences u + 1, last_used := now_generated env\<rparr>)
               (model_usage s1)\<rparr>)"
        using g Some \<open>map_of (loaded_models s1) model_name = Some info\<close> by auto
      have mem: "model_name \<in> set (map fst (loaded_models s1))"
        using \<open>map_of (loaded_models s1) model_name = Some info\<close>
        by (metis map_of_eq_None_iff option.distinct(1) set_map)
      show ?thesis
        using eq inv1 cache_ok_touch[OF ok1 mem] length_update_old[OF mem] by simp
    qed
  qed
qed

lemma cleanup_inv:
  "0 \<le> max_loaded s \<Longrightarrow> cache_ok (cleanup s) \<and> max_loaded (cleanup s) = max_loaded s \<and>
   default_model (cleanup s) = default_model s \<and>
   int (length (loaded_models (cleanup s))) \<le> max_loaded s"
  by (simp add: cleanup_def cache_ok_def dict_keys_def)

lemma apply_call_inv:
  assumes "cache_ok s" and "int (length (loaded_models s)) \<le> max_loaded s" and "1 \<le> max_loaded s"
  shows "cache_ok (apply_call c s) \<and> max_loaded (apply_call c s) = max_loaded s \<and>
         int (length (loaded_models (apply_call c s))) \<le> max_loaded s"
proof (cases c)
  case (Load_model model_name tsk env)
  then show ?thesis using load_model_inv[OF assms] by simp
next
  case (Generate prompt model_name_arg env)
  then show ?thesis using generate_inv[OF assms] by simp
next
  case Cleanup
  then show ?thesis using cleanup_inv[of s] assms by simp
qed

lemma manager_calls_inv:
  assumes "cache_ok s" and "int (length (loaded_models s)) \<le> max_loaded s" and "1 \<le> max_loaded s"
  shows "cache_ok (manager_calls cs s) \<and> max_loaded (manager_calls cs s) = max_loaded s \<and>
         int (length (loaded_models (manager_calls cs s))) \<le> max_loaded s"
  using assms
proof (induction cs arbitrary: s)
  case Nil
  then show ?case by (simp add: manager_calls_def)
next
  case (Cons c cs)
  from apply_call_inv[OF Cons.prems, of c]
  have step: "cache_ok (apply_call c s)" "max_loaded (apply_call c s) = max_loaded s"
    "int (length (loaded_models (apply_call c s))) \<le> max_loaded (apply_call c s)"
    "1 \<le> max_loaded (apply_call c s)"
    using Cons.prems by simp_all
  from Cons.IH[OF step(1) step(3) step(4)] step(2)
  show ?case by (simp add: manager_calls_def)
qed

text \<open>
  C2. For every capacity \<open>K \<ge> 1\<close> and every sequence of \<open>load_model\<close>, \<open>generate\<close> and
  \<open>cleanup\<close> calls on a fresh manager, whatever the outcomes of loading and inference and
  whatever the clock reads, at most \<open>K\<close> models are loaded when the calls have completed
  (so after each call, every prefix being such a sequence).
\<close>

theorem loaded_models_never_exceed_max_loaded:
  "1 \<le> K \<Longrightarrow>
   int (length (loaded_models (manager_calls cs (model_manager_init K dm)))) \<le> K"
  using manager_calls_inv[of "model_manager_init K dm" cs]
  by (simp add: model_manager_init_def cache_ok_def dict_keys_def)


text \<open>Capacity 2 and three loads of different models: two models remain.\<close>

theorem loaded_models_never_exceed_max_loaded_witness:
  "(1::int) \<le> 2 \<and>
   int (length (loaded_models (manager_calls
     [Load_model ''A'' ''text-generation'' \<lparr>pipeline_ok = True, now_loaded = (1::int), now_used = 1\<rparr>,
      Load_model ''B'' ''text-generation'' \<lparr>pipeline_ok = True, now_loaded = 2, now_used = 2\<rparr>,
      Load_model ''C'' ''text-generation'' \<lparr>pipeline_ok = True, now_loaded = 3, now_used = 3\<rparr>]
     (model_manager_init 2 ''gpt2'')))) \<le> 2"
proof -
  have h: "(1::int) \<le> 2" by simp
  show ?thesis
    by (rule conjI[OF h loaded_models_never_exceed_max_loaded[OF h]])
qed

text \<open>
  What \<open>_unload_least_used\<close> removes from a cache that is not empty: the entry whose
  \<open>last_used\<close> is oldest, the first such in insertion order, from both dictionaries.
\<close>

lemma unload_evicts_lru:
  assumes ok: "cache_ok s" and ne: "loaded_models s \<noteq> []"
  shows "\<exists>pre victim u post.
     model_usage s = pre @ (victim, u) # post \<and>
     (\<forall>e\<in>set pre. last_used u < last_used (snd e)) \<and>
     (\<forall>e\<in>set post. last_used u \<le> last_used (snd e)) \<and>
     unload_least_used s =
       Inr (s\<lparr>loaded_models := AList.delete victim (loaded_models s),
              model_usage := AList.delete victim (model_usage s)\<rparr>) \<and>
     Suc (length (AList.delete victim (loaded_models s))) = length (loaded_models s)"
proof -
  have "map fst (model_usage s) \<noteq> []" using ok ne by (auto simp: cache_ok_iff)
  then obtain x xs where usage: "model_usage s = x # xs" by (cases "model_usage s") auto
  let ?key = "\<lambda>x :: string \<times> 'a usage_info. last_used (snd x)"
  let ?m = "py_min_by ?key x xs"
  have un: "unload_least_used s =
       Inr (s\<lparr>loaded_models := AList.delete (fst ?m) (loaded_models s),
              model_usage := AList.delete (fst ?m) (model_usage s)\<rparr>)"
    by (rule unload_nonempty[OF ok usage])
  have "?m \<in> set (model_usage s)"
    using py_min_by_mem[of ?key x xs] usage by simp
  then have "fst ?m \<in> set (map fst (model_usage s))" by simp
  moreover have "map fst (model_usage s) = map fst (loaded_models s)"
    using ok by (simp add: cache_ok_iff)
  ultimately have mem: "fst ?m \<in> set (map fst (loaded_models s))" by metis
  have dist: "distinct (map fst (loaded_models s))" using ok by (simp add: cache_ok_iff)
  have len: "Suc (length (AList.delete (fst ?m) (loaded_models s))) = length (loaded_models s)"
    by (rule length_delete_distinct[OF dist mem])
  from py_min_by_split[of x xs ?key] obtain pre post where
    sp: "x # xs = pre @ ?m # post" and
    lt: "\<forall>e\<in>set pre. ?key ?m < ?key e" and
    le: "\<forall>e\<in>set post. ?key ?m \<le> ?key e" by blast
  have "model_usage s = pre @ (fst ?m, snd ?m) # post" using sp usage by simp
  with lt le un len show ?thesis by blast
qed


text \<open>
  C5 (as amended). When constructing the pipeline fails on a miss, \<open>load_model\<close> returns
  \<open>None\<close> (the exception is caught and logged, none reaches the caller) and inserts
  nothing: the model is not in the cache afterwards. Below capacity (or with nothing
  loaded) the manager is exactly what it was before the call. At capacity exactly one
  entry has been unloaded before the construction was tried, and stays unloaded: the least
  recently used one (every entry before it in insertion order is strictly more recent,
  every entry after it at least as recent), removed from both dictionaries; nothing else
  has changed.
\<close>

theorem failed_load_inserts_nothing:
  "cache_ok s \<and> map_of (loaded_models s) model_name = None \<and> \<not> pipeline_ok env \<longrightarrow>
     fst (load_model model_name tsk env s) = None \<and>
     model_name \<notin> set (dict_keys (loaded_models (snd (load_model model_name tsk env s)))) \<and>
     (if int (length (loaded_models s)) < max_loaded s \<or> loaded_models s = []
      then snd (load_model model_name tsk env s) = s
      else (\<exists>pre victim u post.
              model_usage s = pre @ (victim, u) # post \<and>
              (\<forall>e\<in>set pre. last_used u < last_used (snd e)) \<and>
              (\<forall>e\<in>set post. last_used u \<le> last_used (snd e)) \<and>
              snd (load_model model_name tsk env s) =
                s\<lparr>loaded_models := AList.delete victim (loaded_models s),
                  model_usage := AList.delete victim (model_usage s)\<rparr> \<and>
              Suc (length (loaded_models (snd (load_model model_name tsk env s))))
                = length (loaded_models s)))"
proof
  assume a: "cache_ok s \<and> map_of (loaded_models s) model_name = None \<and> \<not> pipeline_ok env"
  then have ok: "cache_ok s" and miss: "map_of (loaded_models s) model_name = None"
    and fail: "\<not> pipeline_ok env" by simp_all
  from load_model_miss[OF ok miss, of tsk env] fail obtain s1 where
    ev: "(if max_loaded s \<le> int (length (loaded_models s)) then unload_least_used s else Inr s)
           = Inr s1"
    and notin1: "model_name \<notin> set (dict_keys (loaded_models s1))"
    and lm: "load_model model_name tsk env s = (None, s1)"
    by auto
  have branch: "if int (length (loaded_models s)) < max_loaded s \<or> loaded_models s = []
      then s1 = s
      else (\<exists>pre victim u post.
              model_usage s = pre @ (victim, u) # post \<and>
              (\<forall>e\<in>set pre. last_used u < last_used (snd e)) \<and>
              (\<forall>e\<in>set post. last_used u \<le> last_used (snd e)) \<and>
              s1 = s\<lparr>loaded_models := AList.delete victim (loaded_models s),
                     model_usage := AList.delete victim (model_usage s)\<rparr> \<and>
              Suc (length (loaded_models s1)) = length (loaded_models s))"
  proof (cases "int (length (loaded_models s)) < max_loaded s")
    case True
    with ev show ?thesis by simp
  next
    case False
    then have un: "unload_least_used s = Inr s1" using ev by simp
    show ?thesis
    proof (cases "loaded_models s = []")
      case True
      then have "map fst (model_usage s) = []" using ok by (simp add: cache_ok_iff)
      then have "unload_least_used s = Inr s" by (simp add: unload_empty)
      with un True show ?thesis by simp
    next
      case ne: False
      from unload_evicts_lru[OF ok ne] obtain pre victim u post where
        sp: "model_usage s = pre @ (victim, u) # post"
        and lt: "\<forall>e\<in>set pre. last_used u < last_used (snd e)"
        and le: "\<forall>e\<in>set post. last_used u \<le> last_used (snd e)"
        and un': "unload_least_used s =
           Inr (s\<lparr>loaded_models := AList.delete victim (loaded_models s),
                  model_usage := AList.delete victim (model_usage s)\<rparr>)"
        and len: "Suc (length (AList.delete victim (loaded_models s))) = length (loaded_models s)"
        by blast
      from un un' have s1: "s1 = s\<lparr>loaded_models := AList.delete victim (loaded_models s),
                  model_usage := AList.delete victim (model_usage s)\<rparr>" by simp
      have len1: "Suc (length (loaded_models s1)) = length (loaded_models s)"
        using len by (simp add: s1)
      have "\<exists>pre victim u post.
              model_usage s = pre @ (victim, u) # post \<and>
              (\<forall>e\<in>set pre. last_used u < last_used (snd e)) \<and>
              (\<forall>e\<in>set post. last_used u \<le> last_used (snd e)) \<and>
              s1 = s\<lparr>loaded_models := AList.delete victim (loaded_models s),
                     model_usage := AList.delete victim (model_usage s)\<rparr> \<and>
              Suc (length (loaded_models s1)) = length (loaded_models s)"
        using sp lt le s1 len1 by blast
      with False ne show ?thesis by simp
    qed
  qed
  show "fst (load_model model_name tsk env s) = None \<and>
     model_name \<notin> set (dict_keys (loaded_models (snd (load_model model_name tsk env s)))) \<and>
     (if int (length (loaded_models s)) < max_loaded s \<or> loaded_models s = []
      then snd (load_model model_name tsk env s) = s
      else (\<exists>pre victim u post.
              model_usage s = pre @ (victim, u) # post \<and>
              (\<forall>e\<in>set pre. last_used u < last_used (snd e)) \<and>
              (\<forall>e\<in>set post. last_used u \<le> last_used (snd e)) \<and>
              snd (load_model model_name tsk env s) =
                s\<lparr>loaded_models := AList.delete victim (loaded_models s),
                  model_usage := AList.delete victim (model_usage s)\<rparr> \<and>
              Suc (length (loaded_models (snd (load_model model_name tsk env s))))
                = length (loaded_models s)))"
    using notin1 branch by (simp add: lm)
qed


text \<open>
  Capacity 2. With only \<open>A\<close> loaded, a failing load of \<open>B\<close> leaves the manager unchanged.
  With \<open>A\<close> (last used at 5) and \<open>B\<close> (last used at 3) loaded, a failing load of \<open>C\<close>
  unloads \<open>B\<close> and leaves \<open>A\<close>.
\<close>

theorem failed_load_inserts_nothing_witness:
  "(cache_ok 
     \<lparr>loaded_models = [(''A'', \<lparr>pipeline = Pipeline ''text-generation'' ''A'', for_task = ''text-generation'',
                loaded_at = (1::int), usage_count = 0\<rparr>)],
      model_usage = [(''A'', \<lparr>last_used = 1, total_inferences = 0\<rparr>)],
      max_loaded = 2, default_model = ''gpt2''\<rparr> \<and> map_of (loaded_models 
     \<lparr>loaded_models = [(''A'', \<lparr>pipeline = Pipeline ''text-generation'' ''A'', for_task = ''text-generation'',
                loaded_at = (1::int), usage_count = 0\<rparr>)],
      model_usage = [(''A'', \<lparr>last_used = 1, total_inferences = 0\<rparr>)],
      max_loaded = 2, default_model = ''gpt2''\<rparr>) ''B'' = None \<and> \<not> pipeline_ok 
     \<lparr>pipeline_ok = False, now_loaded = (9::int), now_used = 9\<rparr>) \<and>
   load_model ''B'' ''text-generation'' 
     \<lparr>pipeline_ok = False, now_loaded = (9::int), now_used = 9\<rparr> 
     \<lparr>loaded_models = [(''A'', \<lparr>pipeline = Pipeline ''text-generation'' ''A'', for_task = ''text-generation'',
                loaded_at = (1::int), usage_count = 0\<rparr>)],
      model_usage = [(''A'', \<lparr>last_used = 1, total_inferences = 0\<rparr>)],
      max_loaded = 2, default_model = ''gpt2''\<rparr> = (None, 
     \<lparr>loaded_models = [(''A'', \<lparr>pipeline = Pipeline ''text-generation'' ''A'', for_task = ''text-generation'',
                loaded_at = (1::int), usage_count = 0\<rparr>)],
      model_usage = [(''A'', \<lparr>last_used = 1, total_inferences = 0\<rparr>)],
      max_loaded = 2, default_model = ''gpt2''\<rparr>) \<and>
   (cache_ok 
     \<lparr>loaded_models = [(''A'', \<lparr>pipeline = Pipeline ''text-generation'' ''A'', for_task = ''text-generation'',
                loaded_at = (1::int), usage_count = 1\<rparr>),
        (''B'', \<lparr>pipeline = Pipeline ''text-generation'' ''B'', for_task = ''text-generation'',
                loaded_at = 2, usage_count = 1\<rparr>)],
      model_usage = [(''A'', \<lparr>last_used = 5, total_inferences = 1\<rparr>),
                     (''B'', \<lparr>last_used = 3, total_inferences = 1\<rparr>)],
      max_loaded = 2, default_model = ''gpt2''\<rparr> \<and> map_of (loaded_models 
     \<lparr>loaded_models = [(''A'', \<lparr>pipeline = Pipeline ''text-generation'' ''A'', for_task = ''text-generation'',
                loaded_at = (1::int), usage_count = 1\<rparr>),
        (''B'', \<lparr>pipeline = Pipeline ''text-generation'' ''B'', for_task = ''text-generation'',
                loaded_at = 2, usage_count = 1\<rparr>)],
      model_usage = [(''A'', \<lparr>last_used = 5, total_inferences = 1\<rparr>),
                     (''B'', \<lparr>last_used = 3, total_inferences = 1\<rparr>)],
      max_loaded = 2, default_model = ''gpt2''\<rparr>) ''C'' = None \<and> \<not> pipeline_ok 
     \<lparr>pipeline_ok = False, now_loaded = (9::int), now_used = 9\<rparr>) \<and>
   fst (load_model ''C'' ''text-generation'' 
     \<lparr>pipeline_ok = False, now_loaded = (9::int), now_used = 9\<rparr> 
     \<lparr>loaded_models = [(''A'', \<lparr>pipeline = Pipeline ''text-generation'' ''A'', for_task = ''text-generation'',
                loaded_at = (1::int), usage_count = 1\<rparr>),
        (''B'', \<lparr>pipeline = Pipeline ''text-generation'' ''B'', for_task = ''text-generation'',
                loaded_at = 2, usage_count = 1\<rparr>)],
      model_usage = [(''A'', \<lparr>last_used = 5, total_inferences = 1\<rparr>),
                     (''B'', \<lparr>last_used = 3, total_inferences = 1\<rparr>)],
      max_loaded = 2, default_model = ''gpt2''\<rparr>) = None \<and>
   (\<exists>pre victim u post.
      model_usage 
     \<lparr>loaded_models = [(''A'', \<lparr>pipeline = Pipeline ''text-generation'' ''A'', for_task = ''text-generation'',
                loaded_at = (1::int), usage_count = 1\<rparr>),
        (''B'', \<lparr>pipeline = Pipeline ''text-generation'' ''B'', for_task = ''text-generation'',
                loaded_at = 2, usage_count = 1\<rparr>)],
      model_usage = [(''A'', \<lparr>last_used = 5, total_inferences = 1\<rparr>),
                     (''B'', \<lparr>last_used = 3, total_inferences = 1\<rparr>)],
      max_loaded = 2, default_model = ''gpt2''\<rparr> = pre @ (victim, u) # post \<and>
      (\<forall>e\<in>set pre. last_used u < last_used (snd e)) \<and>
      (\<forall>e\<in>set post. last_used u \<le> last_used (snd e)) \<and>
      snd (load_model ''C'' ''text-generation'' 
     \<lparr>pipeline_ok = False, now_loaded = (9::int), now_used = 9\<rparr> 
     \<lparr>loaded_models = [(''A'', \<lparr>pipeline = Pipeline ''text-generation'' ''A'', for_task = ''text-generation'',
                loaded_at = (1::int), usage_count = 1\<rparr>),
        (''B'', \<lparr>pipeline = Pipeline ''text-generation'' ''B'', for_task = ''text-generation'',
                loaded_at = 2, usage_count = 1\<rparr>)],
      model_usage = [(''A'', \<lparr>last_used = 5, total_inferences = 1\<rparr>),
                     (''B'', \<lparr>last_used = 3, total_inferences = 1\<rparr>)],
      max_loaded = 2, default_model = ''gpt2''\<rparr>) =
        
     \<lparr>loaded_models = [(''A'', \<lparr>pipeline = Pipeline ''text-generation'' ''A'', for_task = ''text-generation'',
                loaded_at = (1::int), usage_count = 1\<rparr>),
        (''B'', \<lparr>pipeline = Pipeline ''text-generation'' ''B'', for_task = ''text-generation'',
                loaded_at = 2, usage_count = 1\<rparr>)],
      model_usage = [(''A'', \<lparr>last_used = 5, total_inferences = 1\<rparr>),
                     (''B'', \<lparr>last_used = 3, total_inferences = 1\<rparr>)],
      max_loaded = 2, default_model = ''gpt2''\<rparr>\<lparr>loaded_models := AList.delete victim (loaded_models 
     \<lparr>loaded_models = [(''A'', \<lparr>pipeline = Pipeline ''text-generation'' ''A'', for_task = ''text-generation'',
                loaded_at = (1::int), usage_count = 1\<rparr>),
        (''B'', \<lparr>pipeline = Pipeline ''text-generation'' ''B'', for_task = ''text-generation'',
                loaded_at = 2, usage_count = 1\<rparr>)],
      model_usage = [(''A'', \<lparr>last_used = 5, total_inferences = 1\<rparr>),
                     (''B'', \<lparr>last_used = 3, total_inferences = 1\<rparr>)],
      max_loaded = 2, default_model = ''gpt2''\<rparr>),
          model_usage := AList.delete victim (model_usage 
     \<lparr>loaded_models = [(''A'', \<lparr>pipeline = Pipeline ''text-generation'' ''A'', for_task = ''text-generation'',
                loaded_at = (1::int), usage_count = 1\<rparr>),
        (''B'', \<lparr>pipeline = Pipeline ''text-generation'' ''B'', for_task = ''text-generation'',
                loaded_at = 2, usage_count = 1\<rparr>)],
      model_usage = [(''A'', \<lparr>last_used = 5, total_inferences = 1\<rparr>),
                     (''B'', \<lparr>last_used = 3, total_inferences = 1\<rparr>)],
      max_loaded = 2, default_model = ''gpt2''\<rparr>)\<rparr> \<and>
      Suc (length (loaded_models (snd (load_model ''C'' ''text-generation'' 
     \<lparr>pipeline_ok = False, now_loaded = (9::int), now_used = 9\<rparr> 
     \<lparr>loaded_models = [(''A'', \<lparr>pipeline = Pipeline ''text-generation'' ''A'', for_task = ''text-generation'',
                loaded_at = (1::int), usage_count = 1\<rparr>),
        (''B'', \<lparr>pipeline = Pipeline ''text-generation'' ''B'', for_task = ''text-generation'',
                loaded_at = 2, usage_count = 1\<rparr>)],
      model_usage = [(''A'', \<lparr>last_used = 5, total_inferences = 1\<rparr>),
                     (''B'', \<lparr>last_used = 3, total_inferences = 1\<rparr>)],
      max_loaded = 2, default_model = ''gpt2''\<rparr>))))
        = length (loaded_models 
     \<lparr>loaded_models = [(''A'', \<lparr>pipeline = Pipeline ''text-generation'' ''A'', for_task = ''text-generation'',
                loaded_at = (1::int), usage_count = 1\<rparr>),
        (''B'', \<lparr>pipeline = Pipeline ''text-generation'' ''B'', for_task = ''text-generation'',
                loaded_at = 2, usage_count = 1\<rparr>)],
      model_usage = [(''A'', \<lparr>last_used = 5, total_inferences = 1\<rparr>),
                     (''B'', \<lparr>last_used = 3, total_inferences = 1\<rparr>)],
      max_loaded = 2, default_model = ''gpt2''\<rparr>)) \<and>
   snd (load_model ''C'' ''text-generation'' 
     \<lparr>pipeline_ok = False, now_loaded = (9::int), now_used = 9\<rparr> 
     \<lparr>loaded_models = [(''A'', \<lparr>pipeline = Pipeline ''text-generation'' ''A'', for_task = ''text-generation'',
                loaded_at = (1::int), usage_count = 1\<rparr>),
        (''B'', \<lparr>pipeline = Pipeline ''text-generation'' ''B'', for_task = ''text-generation'',
                loaded_at = 2, usage_count = 1\<rparr>)],
      model_usage = [(''A'', \<lparr>last_used = 5, total_inferences = 1\<rparr>),
                     (''B'', \<lparr>last_used = 3, total_inferences = 1\<rparr>)],
      max_loaded = 2, default_model = ''gpt2''\<rparr>) = 
     \<lparr>loaded_models = [(''A'', \<lparr>pipeline = Pipeline ''text-generation'' ''A'', for_task = ''text-generation'',
                loaded_at = (1::int), usage_count = 1\<rparr>)],
      model_usage = [(''A'', \<lparr>last_used = 5, total_inferences = 1\<rparr>)],
      max_loaded = 2, default_model = ''gpt2''\<rparr>"
proof -
  let ?s1 = "\<lparr>loaded_models = [(''A'', \<lparr>pipeline = Pipeline ''text-generation'' ''A'', for_task = ''text-generation'',
                loaded_at = (1::int), usage_count = 0\<rparr>)],
      model_usage = [(''A'', \<lparr>last_used = 1, total_inferences = 0\<rparr>)],
      max_loaded = 2, default_model = ''gpt2''\<rparr>"
  let ?s2 = "\<lparr>loaded_models = [(''A'', \<lparr>pipeline = Pipeline ''text-generation'' ''A'', for_task = ''text-generation'',
                loaded_at = (1::int), usage_count = 1\<rparr>),
        (''B'', \<lparr>pipeline = Pipeline ''text-generation'' ''B'', for_task = ''text-generation'',
                loaded_at = 2, usage_count = 1\<rparr>)],
      model_usage = [(''A'', \<lparr>last_used = 5, total_inferences = 1\<rparr>),
                     (''B'', \<lparr>last_used = 3, total_inferences = 1\<rparr>)],
      max_loaded = 2, default_model = ''gpt2''\<rparr>"
  let ?s2a = "\<lparr>loaded_models = [(''A'', \<lparr>pipeline = Pipeline ''text-generation'' ''A'', for_task = ''text-generation'',
                loaded_at = (1::int), usage_count = 1\<rparr>)],
      model_usage = [(''A'', \<lparr>last_used = 5, total_inferences = 1\<rparr>)],
      max_loaded = 2, default_model = ''gpt2''\<rparr>"
  let ?e = "\<lparr>pipeline_ok = False, now_loaded = (9::int), now_used = 9\<rparr>"
  have h1: "cache_ok ?s1 \<and> map_of (loaded_models ?s1) ''B'' = None \<and> \<not> pipeline_ok ?e"
    by (simp add: cache_ok_def dict_keys_def)
  have h2: "cache_ok ?s2 \<and> map_of (loaded_models ?s2) ''C'' = None \<and> \<not> pipeline_ok ?e"
    by (simp add: cache_ok_def dict_keys_def)
  have below: "int (length (loaded_models ?s1)) < max_loaded ?s1 \<or> loaded_models ?s1 = []"
    by simp
  have full: "\<not> (int (length (loaded_models ?s2)) < max_loaded ?s2 \<or> loaded_models ?s2 = [])"
    by simp
  note i1 = failed_load_inserts_nothing[of ?s1 "''B''" ?e "''text-generation''"]
  note i2 = failed_load_inserts_nothing[of ?s2 "''C''" ?e "''text-generation''"]
  from i1 h1 have "fst (load_model ''B'' ''text-generation'' ?e ?s1) = None"
    and "if int (length (loaded_models ?s1)) < max_loaded ?s1 \<or> loaded_models ?s1 = []
         then snd (load_model ''B'' ''text-generation'' ?e ?s1) = ?s1 else False \<or> True"
    by (auto split: if_splits)
  with below have c1: "load_model ''B'' ''text-generation'' ?e ?s1 = (None, ?s1)"
    by (metis prod.collapse)
  from i2 h2 have c2: "fst (load_model ''C'' ''text-generation'' ?e ?s2) = None" by blast
  from i2 h2 have "if int (length (loaded_models ?s2)) < max_loaded ?s2 \<or> loaded_models ?s2 = []
      then snd (load_model ''C'' ''text-generation'' ?e ?s2) = ?s2
      else (\<exists>pre victim u post.
      model_usage ?s2 = pre @ (victim, u) # post \<and>
      (\<forall>e\<in>set pre. last_used u < last_used (snd e)) \<and>
      (\<forall>e\<in>set post. last_used u \<le> last_used (snd e)) \<and>
      snd (load_model ''C'' ''text-generation'' ?e ?s2) =
        ?s2\<lparr>loaded_models := AList.delete victim (loaded_models ?s2),
          model_usage := AList.delete victim (model_usage ?s2)\<rparr> \<and>
      Suc (length (loaded_models (snd (load_model ''C'' ''text-generation'' ?e ?s2))))
        = length (loaded_models ?s2))"
    by blast
  then have c3: "\<exists>pre victim u post.
      model_usage ?s2 = pre @ (victim, u) # post \<and>
      (\<forall>e\<in>set pre. last_used u < last_used (snd e)) \<and>
      (\<forall>e\<in>set post. last_used u \<le> last_used (snd e)) \<and>
      snd (load_model ''C'' ''text-generation'' ?e ?s2) =
        ?s2\<lparr>loaded_models := AList.delete victim (loaded_models ?s2),
          model_usage := AList.delete victim (model_usage ?s2)\<rparr> \<and>
      Suc (length (loaded_models (snd (load_model ''C'' ''text-generation'' ?e ?s2))))
        = length (loaded_models ?s2)"
    unfolding if_not_P[OF full] .
  have c4: "snd (load_model ''C'' ''text-generation'' ?e ?s2) = ?s2a"
    by (simp add: load_model_def unload_least_used_def dict_keys_def Let_def)
  show ?thesis
    using h1 c1 h2 c2 c3 c4 by blast
qed


text \<open>
  C5 as stated fails: with capacity 2, \<open>A\<close> and \<open>B\<close> loaded and \<open>A\<close> used since, a failing
  load of \<open>C\<close> returns \<open>None\<close> and leaves only \<open>A\<close> in the cache: \<open>B\<close> was evicted.
\<close>

theorem failed_load_at_capacity_evicts:
  "dict_keys (loaded_models (manager_calls
     [Load_model ''A'' ''text-generation'' \<lparr>pipeline_ok = True, now_loaded = (1::int), now_used = 1\<rparr>,
      Load_model ''B'' ''text-generation'' \<lparr>pipeline_ok = True, now_loaded = 2, now_used = 2\<rparr>,
      Generate ''hello'' (Some ''A'')
        \<lparr>on_miss = \<lparr>pipeline_ok = True, now_loaded = 5, now_used = 5\<rparr>,
         inference = Some ''out'', now_generated = 5\<rparr>]
     (model_manager_init 2 ''gpt2''))) = [''A'', ''B''] \<and>
   fst (load_model ''C'' ''text-generation''
     \<lparr>pipeline_ok = False, now_loaded = 9, now_used = 9\<rparr>
     (manager_calls
     [Load_model ''A'' ''text-generation'' \<lparr>pipeline_ok = True, now_loaded = (1::int), now_used = 1\<rparr>,
      Load_model ''B'' ''text-generation'' \<lparr>pipeline_ok = True, now_loaded = 2, now_used = 2\<rparr>,
      Generate ''hello'' (Some ''A'')
        \<lparr>on_miss = \<lparr>pipeline_ok = True, now_loaded = 5, now_used = 5\<rparr>,
         inference = Some ''out'', now_generated = 5\<rparr>]
     (model_manager_init 2 ''gpt2''))) = None \<and>
   dict_keys (loaded_models (snd (load_model ''C'' ''text-generation''
     \<lparr>pipeline_ok = False, now_loaded = 9, now_used = 9\<rparr>
     (manager_calls
     [Load_model ''A'' ''text-generation'' \<lparr>pipeline_ok = True, now_loaded = (1::int), now_used = 1\<rparr>,
      Load_model ''B'' ''text-generation'' \<lparr>pipeline_ok = True, now_loaded = 2, now_used = 2\<rparr>,
      Generate ''hello'' (Some ''A'')
        \<lparr>on_miss = \<lparr>pipeline_ok = True, now_loaded = 5, now_used = 5\<rparr>,
         inference = Some ''out'', now_generated = 5\<rparr>]
     (model_manager_init 2 ''gpt2''))))) = [''A'']"
  by (simp add: manager_calls_def model_manager_init_def generate_def load_model_def
      unload_least_used_def dict_keys_def Let_def)







section \<open>Draining the action queue\<close>

lemma drain_step:
  "pending_actions al = a # q \<Longrightarrow>
   process_actions_during arrivals al =
     ((a, process_action a) #
        fst (process_actions_during (tl arrivals)
               (foldl add_task (al\<lparr>pending_actions := q\<rparr>)
                  (case arrivals of [] \<Rightarrow> [] | ar # _ \<Rightarrow> ar))),
      snd (process_actions_during (tl arrivals)
               (foldl add_task (al\<lparr>pending_actions := q\<rparr>)
                  (case arrivals of [] \<Rightarrow> [] | ar # _ \<Rightarrow> ar))))"
  by (subst process_actions_during.simps) (simp add: Let_def split_beta)

lemma drain_empty:
  "pending_actions al = [] \<Longrightarrow> process_actions_during arrivals al = ([], al)"
  by (subst process_actions_during.simps) simp

lemma drain_exact:
  "fst (process_actions_during arrivals al)
     = map (\<lambda>a. (a, process_action a))
         (pending_actions al
          @ concat (take (length (fst (process_actions_during arrivals al))) arrivals)) \<and>
   pending_actions (snd (process_actions_during arrivals al)) = []"
proof (induction arrivals al rule: process_actions_during.induct)
  case (1 arrivals al)
  show ?case
  proof (cases "pending_actions al")
    case Nil
    then show ?thesis by (simp add: drain_empty)
  next
    case (Cons a q)
    let ?ar = "case arrivals of [] \<Rightarrow> [] | ar # _ \<Rightarrow> ar"
    let ?next = "foldl add_task (al\<lparr>pending_actions := tl (pending_actions al)\<rparr>) ?ar"
    let ?r = "process_actions_during (tl arrivals) ?next"
    define rest where "rest = fst ?r"
    define final where "final = snd ?r"
    have pn: "pending_actions ?next = q @ ?ar" using Cons by (simp add: pending_foldl_add_task)
    have ne: "pending_actions al \<noteq> []" using Cons by simp
    have IH: "rest = map (\<lambda>a. (a, process_action a))
                 (pending_actions ?next @ concat (take (length rest) (tl arrivals))) \<and>
              pending_actions final = []"
      unfolding rest_def final_def by (rule "1.IH"[OF ne refl refl refl refl])
    have nq: "?next = foldl add_task (al\<lparr>pending_actions := q\<rparr>) ?ar" using Cons by simp
    have step: "process_actions_during arrivals al = ((a, process_action a) # rest, final)"
      unfolding rest_def final_def using drain_step[OF Cons, of arrivals] nq by simp
    have tk: "concat (take (Suc (length rest)) arrivals)
                = ?ar @ concat (take (length rest) (tl arrivals))"
      by (cases arrivals) simp_all
    have "rest = map (\<lambda>a. (a, process_action a))
                 (q @ ?ar @ concat (take (length rest) (tl arrivals)))"
      using IH pn by simp
    then have "(a, process_action a) # rest
            = map (\<lambda>a. (a, process_action a))
                 (pending_actions al @ concat (take (Suc (length rest)) arrivals))"
      using tk Cons by simp
    moreover have "pending_actions final = []" using IH by simp
    moreover have "fst (process_actions_during arrivals al) = (a, process_action a) # rest"
      and "snd (process_actions_during arrivals al) = final"
      and "length (fst (process_actions_during arrivals al)) = Suc (length rest)"
      by (simp_all add: step)
    ultimately show ?thesis by metis
  qed
qed


lemma drain_minimal:
  "k < length (fst (process_actions_during arrivals al)) \<Longrightarrow>
   k < length (pending_actions al) + length (concat (take k arrivals))"
proof (induction arrivals al arbitrary: k rule: process_actions_during.induct)
  case (1 arrivals al)
  show ?case
  proof (cases "pending_actions al")
    case Nil
    with "1.prems" show ?thesis by (simp add: drain_empty)
  next
    case (Cons a q)
    let ?ar = "case arrivals of [] \<Rightarrow> [] | ar # _ \<Rightarrow> ar"
    let ?next = "foldl add_task (al\<lparr>pending_actions := tl (pending_actions al)\<rparr>) ?ar"
    let ?r = "process_actions_during (tl arrivals) ?next"
    have pn: "pending_actions ?next = q @ ?ar" using Cons by (simp add: pending_foldl_add_task)
    have ne: "pending_actions al \<noteq> []" using Cons by simp
    have nq: "?next = foldl add_task (al\<lparr>pending_actions := q\<rparr>) ?ar" using Cons by simp
    have len: "length (fst (process_actions_during arrivals al)) = Suc (length (fst ?r))"
      using drain_step[OF Cons, of arrivals] nq by simp
    show ?thesis
    proof (cases k)
      case 0
      then show ?thesis using Cons by simp
    next
      case (Suc j)
      with "1.prems" len have "j < length (fst ?r)" by simp
      from "1.IH"[OF ne refl refl refl refl this]
      have "j < length (q @ ?ar) + length (concat (take j (tl arrivals)))"
        using pn by simp
      moreover have "concat (take (Suc j) arrivals) = ?ar @ concat (take j (tl arrivals))"
        by (cases arrivals) simp_all
      ultimately show ?thesis using Suc Cons by simp
    qed
  qed
qed

text \<open>
  C3 (as amended). The drain has no snapshot: it pops the live queue until the queue is
  empty. It processes in FIFO order the actions queued when it starts and then, in arrival
  order, every action enqueued while it is processing (the arrivals of each iteration it
  runs, late arrivals' own arrivals included); it goes on as long as an action is queued
  and leaves the queue empty. As the daemon runs it the loop has no suspension point, so
  nothing is enqueued during a drain and a drain processes exactly the queue's content at
  its start.
\<close>

theorem drain_reads_the_live_queue:
  "fst (process_actions_during arrivals al)
     = map (\<lambda>a. (a, process_action a))
         (pending_actions al
          @ concat (take (length (fst (process_actions_during arrivals al))) arrivals)) \<and>
   (\<forall>k < length (fst (process_actions_during arrivals al)).
      k < length (pending_actions al) + length (concat (take k arrivals))) \<and>
   pending_actions (snd (process_actions_during arrivals al)) = [] \<and>
   fst (process_actions al) = map (\<lambda>a. (a, process_action a)) (pending_actions al) \<and>
   pending_actions (snd (process_actions al)) = []"
  using drain_exact[of arrivals al] drain_exact[of "[]" al] drain_minimal[of _ arrivals al]
  by (simp add: process_actions_def)

text \<open>
  \<open>a1\<close> is queued; \<open>a2\<close> arrives while \<open>a1\<close> is processed and \<open>a3\<close> while \<open>a2\<close> is: the drain
  processes all three in this order.
\<close>

theorem drain_reads_the_live_queue_witness:
  "(2::nat) < length (fst (process_actions_during 
       [[[''type'' \<mapsto> Str ''a2'']], [[''type'' \<mapsto> Str ''a3'']]] 
       \<lparr>running = True, consciousness_mode = True, thoughts = [],
        pending_actions = [[''type'' \<mapsto> Str ''a1'']]\<rparr>)) \<and>
   2 < length (pending_actions 
       \<lparr>running = True, consciousness_mode = True, thoughts = [],
        pending_actions = [[''type'' \<mapsto> Str ''a1'']]\<rparr>) + length (concat (take 2 
       [[[''type'' \<mapsto> Str ''a2'']], [[''type'' \<mapsto> Str ''a3'']]])) \<and>
   fst (process_actions_during 
       [[[''type'' \<mapsto> Str ''a2'']], [[''type'' \<mapsto> Str ''a3'']]] 
       \<lparr>running = True, consciousness_mode = True, thoughts = [],
        pending_actions = [[''type'' \<mapsto> Str ''a1'']]\<rparr>)
     = map (\<lambda>a. (a, process_action a))
         [[''type'' \<mapsto> Str ''a1''], [''type'' \<mapsto> Str ''a2''], [''type'' \<mapsto> Str ''a3'']] \<and>
   pending_actions (snd (process_actions_during 
       [[[''type'' \<mapsto> Str ''a2'']], [[''type'' \<mapsto> Str ''a3'']]] 
       \<lparr>running = True, consciousness_mode = True, thoughts = [],
        pending_actions = [[''type'' \<mapsto> Str ''a1'']]\<rparr>)) = []"
proof -
  let ?al = "\<lparr>running = True, consciousness_mode = True, thoughts = [],
        pending_actions = [[''type'' \<mapsto> Str ''a1'']]\<rparr>"
  let ?arr = "[[[''type'' \<mapsto> Str ''a2'']], [[''type'' \<mapsto> Str ''a3'']]]"
  note inst = drain_reads_the_live_queue[of ?arr ?al]
  have len: "length (fst (process_actions_during ?arr ?al)) = 3"
    by (simp add: drain_step drain_empty add_task_def)
  have k: "(2::nat) < length (fst (process_actions_during ?arr ?al))"
    using len by simp
  from inst k have m: "2 < length (pending_actions ?al) + length (concat (take 2 ?arr))"
    by blast
  from inst have "fst (process_actions_during ?arr ?al)
     = map (\<lambda>a. (a, process_action a))
         (pending_actions ?al
          @ concat (take (length (fst (process_actions_during ?arr ?al))) ?arr))"
    by blast
  then have f: "fst (process_actions_during ?arr ?al)
     = map (\<lambda>a. (a, process_action a))
         [[''type'' \<mapsto> Str ''a1''], [''type'' \<mapsto> Str ''a2''], [''type'' \<mapsto> Str ''a3'']]"
    unfolding len by simp
  from inst have e: "pending_actions (snd (process_actions_during ?arr ?al)) = []"
    by blast
  show ?thesis using k m f e by blast
qed

text \<open>
  C3 as stated fails: \<open>a1\<close> is enqueued, the drain starts, and \<open>a2\<close> is enqueued while \<open>a1\<close>
  is being processed; the same drain processes \<open>a1\<close> and then \<open>a2\<close>, and nothing is left for
  the next drain.
\<close>

theorem drain_processes_action_enqueued_during_drain:
  "map fst (fst (process_actions_during
       [[[''type'' \<mapsto> Str ''conversation'', ''message'' \<mapsto> Str ''a2'']]]
       (add_task \<lparr>running = True, consciousness_mode = True, thoughts = [], pending_actions = []\<rparr>
          [''type'' \<mapsto> Str ''documentation_check''])))
   = [[''type'' \<mapsto> Str ''documentation_check''],
      [''type'' \<mapsto> Str ''conversation'', ''message'' \<mapsto> Str ''a2'']] \<and>
   pending_actions (snd (process_actions_during
       [[[''type'' \<mapsto> Str ''conversation'', ''message'' \<mapsto> Str ''a2'']]]
       (add_task \<lparr>running = True, consciousness_mode = True, thoughts = [], pending_actions = []\<rparr>
          [''type'' \<mapsto> Str ''documentation_check''])))
   = []"
  by (simp add: drain_step drain_empty add_task_def)

section \<open>Shutdown\<close>

text \<open>
  C4 (as amended). Calling \<open>shutdown\<close> a second time leaves the daemon exactly as the first
  call left it: with status \<open>shutdown\<close>, not running, and the model manager (when there is
  one) cleaned up, both of its dictionaries empty. Every call, the second included, ends
  by raising \<open>SystemExit(0)\<close>: none returns.
\<close>

theorem shutdown_twice:
  "snd (shutdown (snd (shutdown d))) = snd (shutdown d) \<and>
   status (state (snd (shutdown d))) = ''shutdown'' \<and>
   \<not> daemon_running (snd (shutdown d)) \<and>
   model_manager (snd (shutdown d)) = map_option cleanup (model_manager d) \<and>
   map_option loaded_models (model_manager (snd (shutdown d)))
     = map_option (\<lambda>m. []) (model_manager d) \<and>
   map_option model_usage (model_manager (snd (shutdown d)))
     = map_option (\<lambda>m. []) (model_manager d) \<and>
   fst (shutdown d) = Inl (SystemExit 0) \<and>
   fst (shutdown (snd (shutdown d))) = Inl (SystemExit 0)"
  by (cases "model_manager d") (simp_all add: shutdown_def Let_def cleanup_def)

text \<open>C4 as stated fails: the second call does throw, it raises \<open>SystemExit\<close>.\<close>

theorem second_shutdown_raises_SystemExit:
  "fst (shutdown (snd (shutdown (daemon_init :: int daemon)))) \<noteq> Inr ()"
  by (simp add: shutdown_def Let_def daemon_init_def)

section \<open>The consciousness level\<close>

text \<open>
  C8. The fractions are not clamped before weighting, against the comment in the code
  ("30% based on uptime (1 day = max)"). After two days of uptime with the heartbeat's
  34560 cycles and no thought recorded (consciousness mode off), \<open>_update_consciousness\<close>
  stores 1.0, where the score with each fraction clamped is 0.6; with the cycle count left
  at 0, to isolate the uptime term, it stores 0.6 where the clamped score is 0.3.
\<close>

theorem update_consciousness_after_two_days:
  "consciousness_level
     (update_consciousness
        \<lparr>running = True, consciousness_mode = False, thoughts = [], pending_actions = []\<rparr>
        \<lparr>status = ''running'', uptime = 172800, cycles_completed = 34560, last_thought = None,
         consciousness_level = 0\<rparr>) = 1 \<and>
   clamped_activity_score 172800 34560 0 = 3 / 5 \<and>
   consciousness_level
     (update_consciousness
        \<lparr>running = True, consciousness_mode = False, thoughts = [], pending_actions = []\<rparr>
        \<lparr>status = ''running'', uptime = 172800, cycles_completed = 0, last_thought = None,
         consciousness_level = 0\<rparr>) = 3 / 5 \<and>
   clamped_activity_score 172800 0 0 = 3 / 10"
  by (simp add: update_consciousness_def clamped_activity_score_def clamp01_def Let_def)

end
